theory Spec2Isabelle
  imports Main "HOL-Library.Word"
begin

unbundle bit_operations_syntax

section \<open>Intrinio balance sheet fetcher: query, extraction, transformation\<close>

text \<open>
  A shallow embedding of \<^verbatim>\<open>openbb_intrinio/models/balance_sheet.py\<close>: the query
  validators, \<^verbatim>\<open>aextract_data\<close>, \<^verbatim>\<open>replace_zero\<close> and \<^verbatim>\<open>transform_data\<close>.
  Python exceptions are values of type \<open>error\<close>; a function that can raise returns
  \<open>error + 'a\<close> with \<open>Inl\<close> for the exception.
\<close>

subsection \<open>Python values\<close>

datatype error =
  TypeError | ValueError | OverflowError | ValidationError | RequestError string

text \<open>
  A Python float is an IEEE 754 double, kept as its 64 bits. A value decoded from JSON
  is \<^verbatim>\<open>None\<close>, a bool, an int, a float, a str, a list or a dict.
\<close>

type_synonym pyfloat = "64 word"

datatype pyval =
    PNone
  | PBool bool
  | PInt int
  | PFloat pyfloat
  | PStr string
  | PList "pyval list"
  | PDict "(string \<times> pyval) list"

text \<open>\<open>x == 0\<close> on a float: true for \<open>0.0\<close> and \<open>-0.0\<close>, that is when the 63 bits below the sign are clear.\<close>

definition float_is_zero :: "pyfloat \<Rightarrow> bool" where
  "float_is_zero w = (take_bit 63 w = 0)"

text \<open>Truthiness, as \<^verbatim>\<open>if v\<close> tests it.\<close>

fun truthy :: "pyval \<Rightarrow> bool" where
  "truthy PNone = False"
| "truthy (PBool b) = b"
| "truthy (PInt n) = (n \<noteq> 0)"
| "truthy (PFloat w) = (\<not> float_is_zero w)"
| "truthy (PStr s) = (s \<noteq> [])"
| "truthy (PList xs) = (xs \<noteq> [])"
| "truthy (PDict kvs) = (kvs \<noteq> [])"

text \<open>\<^verbatim>\<open>v == 0\<close>: only a number (or a bool, which is an int) can equal zero.\<close>

fun eq_zero :: "pyval \<Rightarrow> bool" where
  "eq_zero (PBool b) = (\<not> b)"
| "eq_zero (PInt n) = (n = 0)"
| "eq_zero (PFloat w) = float_is_zero w"
| "eq_zero _ = False"

text \<open>A number is an int or a float; a bool is an int.\<close>

fun is_number :: "pyval \<Rightarrow> bool" where
  "is_number (PBool b) = True"
| "is_number (PInt n) = True"
| "is_number (PFloat w) = True"
| "is_number _ = False"

subsection \<open>The builtin \<^verbatim>\<open>float\<close>\<close>

fun bit_length :: "nat \<Rightarrow> nat" where
  "bit_length n = (if n = 0 then 0 else Suc (bit_length (n div 2)))"

declare bit_length.simps [simp del]

text \<open>\<open>m / 2 ^ sh\<close> rounded to the nearest integer, a tie going to the even one.\<close>

definition round_half_even :: "nat \<Rightarrow> nat \<Rightarrow> nat" where
  "round_half_even m sh =
     (let q = m div 2 ^ sh; r = m mod 2 ^ sh; half = 2 ^ (sh - 1)
      in if sh = 0 then m
         else if half < r \<or> (r = half \<and> odd q) then q + 1 else q)"

text \<open>The bits of a double: sign, biased exponent, and the 52 stored bits of the significand.\<close>

definition pack_double :: "bool \<Rightarrow> nat \<Rightarrow> nat \<Rightarrow> pyfloat" where
  "pack_double neg biased sig =
     word_of_nat ((if neg then 2 ^ 63 else 0) + biased * 2 ^ 52 + sig mod 2 ^ 52)"

text \<open>
  \<^verbatim>\<open>float(n)\<close> for an int: the nearest double (ties to even), and OverflowError when
  the rounded value needs an exponent beyond the double range.
\<close>

definition float_of_int :: "int \<Rightarrow> error + pyfloat" where
  "float_of_int n =
     (if n = 0 then Inr 0
      else
        let m = nat \<bar>n\<bar>;
            bl = bit_length m;
            q = (if bl \<le> 53 then m * 2 ^ (53 - bl) else round_half_even m (bl - 53));
            e = (if q = 2 ^ 53 then bl else bl - 1)
        in if 1023 < e then Inl OverflowError
           else Inr (pack_double (n < 0) (e + 1023) q))"

definition float_one :: pyfloat where
  "float_one = pack_double False 1023 0"

text \<open>
  Two parsers are parameters of the model: the grammar of float literals that the
  builtin \<^verbatim>\<open>float\<close> accepts (ValueError for a str that is no literal), and the
  reading of a str as an int by the schema library when it fills a field annotated
  \<^verbatim>\<open>int\<close>.
\<close>

record parsers =
  float_of_str :: "string \<Rightarrow> error + pyfloat"
  int_of_str :: "string \<Rightarrow> error + int"

text \<open>\<^verbatim>\<open>float(v)\<close>\<close>

fun py_float :: "parsers \<Rightarrow> pyval \<Rightarrow> error + pyfloat" where
  "py_float P PNone = Inl TypeError"
| "py_float P (PBool b) = Inr (if b then float_one else 0)"
| "py_float P (PInt n) = float_of_int n"
| "py_float P (PFloat w) = Inr w"
| "py_float P (PStr s) = float_of_str P s"
| "py_float P (PList xs) = Inl TypeError"
| "py_float P (PDict kvs) = Inl TypeError"

subsection \<open>Query parameters\<close>

text \<open>
  The keyword arguments a caller passes, each taken as supplied, and the validated query
  object. The fields \<open>symbol\<close> and \<open>limit\<close> are declared by the base query class,
  which is not among the sources: \<open>limit\<close> is a count of periods, and of the
  construction of a query the model has the annotation and the two validators of this
  module.
\<close>

record params =
  p_symbol :: string
  p_period :: string
  p_fiscal_year :: "int option"
  p_limit :: nat

record query =
  symbol :: string
  period :: string
  fiscal_year :: "int option"
  limit :: nat

text \<open>\<^verbatim>\<open>v = "FY" if v == "annual" else "QTR"\<close>\<close>

definition validate_period :: "string \<Rightarrow> string" where
  "validate_period v = (if v = ''annual'' then ''FY'' else ''QTR'')"

text \<open>\<^verbatim>\<open>v.replace("-", ".")\<close>\<close>

definition handle_symbol :: "string \<Rightarrow> string" where
  "handle_symbol v = map (\<lambda>c. if c = CHR ''-'' then CHR ''.'' else c) v"

text \<open>
  \<^verbatim>\<open>IntrinioBalanceSheetQueryParams(**params)\<close>: the annotation
  \<^verbatim>\<open>Literal["annual", "quarter"]\<close> is checked first, then the two validators run
  (both are declared \<^verbatim>\<open>mode="after"\<close>).
\<close>

definition transform_query :: "params \<Rightarrow> error + query" where
  "transform_query ps =
     (if p_period ps = ''annual'' \<or> p_period ps = ''quarter''
      then Inr \<lparr>symbol = handle_symbol (p_symbol ps),
                period = validate_period (p_period ps),
                fiscal_year = p_fiscal_year ps,
                limit = p_limit ps\<rparr>
      else Inl ValidationError)"

subsection \<open>Statements and records\<close>

text \<open>
  The dict that the extraction callback builds for one fiscal period: three header
  values and the vendor's line items, each a tag with its raw value.
\<close>

record statement =
  period_ending :: pyval
  stmt_fiscal_year :: pyval
  fiscal_period :: pyval
  financials :: "(string \<times> pyval) list"

text \<open>
  A dict with str keys is the list of its items in the order of insertion, with no key
  twice. An assignment \<^verbatim>\<open>d[k] = v\<close> replaces the value of a key that is present,
  where it stands, and puts a new key at the end.
\<close>

type_synonym pydict = "(string \<times> pyval) list"

fun dict_set :: "pydict \<Rightarrow> string \<Rightarrow> pyval \<Rightarrow> pydict" where
  "dict_set [] k v = [(k, v)]"
| "dict_set ((k', v') # d) k v =
     (if k' = k then (k, v) # d else (k', v') # dict_set d k v)"

text \<open>The dict built from a sequence of items, as a dict comprehension builds it.\<close>

definition dict_of_items :: "(string \<times> pyval) list \<Rightarrow> pydict" where
  "dict_of_items items = foldl (\<lambda>d (k, v). dict_set d k v) [] items"

text \<open>
  The field names of the record class: the three that the base balance sheet class
  declares, then those declared by \<^verbatim>\<open>IntrinioBalanceSheetData\<close>.
\<close>

definition header_fields :: "string list" where
  "header_fields = [''period_ending'', ''fiscal_year'', ''fiscal_period'']"

definition declared_fields :: "string list" where
  "declared_fields =
  [''cash_and_cash_equivalents'', ''cash_and_due_from_banks'', ''restricted_cash'',
   ''short_term_investments'', ''federal_funds_sold'', ''accounts_receivable'',
   ''note_and_lease_receivable'', ''inventories'', ''customer_and_other_receivables'',
   ''interest_bearing_deposits_at_other_banks'',
   ''time_deposits_placed_and_other_short_term_investments'', ''trading_account_securities'',
   ''loans_and_leases'', ''allowance_for_loan_and_lease_losses'',
   ''current_deferred_refundable_income_taxes'', ''other_current_assets'',
   ''loans_and_leases_net_of_allowance'', ''accrued_investment_income'',
   ''other_current_non_operating_assets'', ''loans_held_for_sale'', ''prepaid_expenses'',
   ''total_current_assets'', ''plant_property_equipment_gross'', ''accumulated_depreciation'',
   ''premises_and_equipment_net'', ''plant_property_equipment_net'', ''long_term_investments'',
   ''mortgage_servicing_rights'', ''unearned_premiums_asset'',
   ''non_current_note_lease_receivables'', ''deferred_acquisition_cost'', ''goodwill'',
   ''separate_account_business_assets'', ''non_current_deferred_refundable_income_taxes'',
   ''intangible_assets'', ''employee_benefit_assets'', ''other_assets'',
   ''other_non_current_operating_assets'', ''other_non_current_non_operating_assets'',
   ''interest_bearing_deposits'', ''total_non_current_assets'', ''total_assets'',
   ''non_interest_bearing_deposits'', ''federal_funds_purchased_and_securities_sold'',
   ''bankers_acceptance_outstanding'', ''short_term_debt'', ''accounts_payable'',
   ''current_deferred_revenue'', ''current_deferred_payable_income_tax_liabilities'',
   ''accrued_interest_payable'', ''accrued_expenses'', ''other_short_term_payables'',
   ''customer_deposits'', ''dividends_payable'', ''claims_and_claim_expense'',
   ''future_policy_benefits'', ''current_employee_benefit_liabilities'',
   ''unearned_premiums_liability'', ''other_taxes_payable'', ''policy_holder_funds'',
   ''other_current_liabilities'', ''other_current_non_operating_liabilities'',
   ''separate_account_business_liabilities'', ''total_current_liabilities'', ''long_term_debt'',
   ''other_long_term_liabilities'', ''non_current_deferred_revenue'',
   ''non_current_deferred_payable_income_tax_liabilities'',
   ''non_current_employee_benefit_liabilities'', ''other_non_current_operating_liabilities'',
   ''other_non_current_non_operating_liabilities'', ''total_non_current_liabilities'',
   ''capital_lease_obligations'', ''asset_retirement_reserve_litigation_obligation'',
   ''total_liabilities'', ''commitments_contingencies'', ''redeemable_non_controlling_interest'',
   ''preferred_stock'', ''common_stock'', ''retained_earnings'', ''treasury_stock'',
   ''accumulated_other_comprehensive_income'', ''participating_policy_holder_equity'',
   ''other_equity_adjustments'', ''total_common_equity'', ''total_preferred_common_equity'',
   ''non_controlling_interest'', ''total_equity_non_controlling_interests'',
   ''total_liabilities_shareholders_equity'']"

definition standardized_fields :: "string list" where
  "standardized_fields = header_fields @ declared_fields"

text \<open>The table \<^verbatim>\<open>__alias_dict__\<close> of the record class: field name, then vendor tag.\<close>

definition alias_dict :: "(string \<times> string) list" where
  "alias_dict =
  [(''cash_and_cash_equivalents'', ''cashandequivalents''), (''restricted_cash'',
   ''restrictedcash''), (''short_term_investments'', ''shortterminvestments''),
   (''federal_funds_sold'', ''fedfundssold''), (''note_and_lease_receivable'',
   ''notereceivable''), (''interest_bearing_deposits_at_other_banks'',
   ''interestbearingdepositsatotherbanks''), (''accounts_receivable'', ''accountsreceivable''),
   (''time_deposits_placed_and_other_short_term_investments'', ''timedepositsplaced''),
   (''inventories'', ''netinventory''), (''trading_account_securities'',
   ''tradingaccountsecurities''), (''prepaid_expenses'', ''prepaidexpenses''),
   (''loans_and_leases'', ''loansandleases''), (''allowance_for_loan_and_lease_losses'',
   ''allowanceforloanandleaselosses''), (''current_deferred_refundable_income_taxes'',
   ''currentdeferredtaxassets''), (''other_current_assets'', ''othercurrentassets''),
   (''loans_and_leases_net_of_allowance'', ''netloansandleases''),
   (''other_current_non_operating_assets'', ''othercurrentnonoperatingassets''),
   (''loans_held_for_sale'', ''loansheldforsale''), (''total_current_assets'',
   ''totalcurrentassets''), (''accrued_investment_income'', ''accruedinvestmentincome''),
   (''plant_property_equipment_gross'', ''grossppe''), (''customer_and_other_receivables'',
   ''customerandotherreceivables''), (''accumulated_depreciation'', ''accumulateddepreciation''),
   (''premises_and_equipment_net'', ''netpremisesandequipment''),
   (''plant_property_equipment_net'', ''netppe''), (''mortgage_servicing_rights'',
   ''mortgageservicingrights''), (''long_term_investments'', ''longterminvestments''),
   (''unearned_premiums_asset'', ''unearnedpremiumsdebit''),
   (''non_current_note_lease_receivables'', ''noncurrentnotereceivables''),
   (''deferred_acquisition_cost'', ''deferredacquisitioncost''), (''goodwill'', ''goodwill''),
   (''separate_account_business_assets'', ''separateaccountbusinessassets''),
   (''intangible_assets'', ''intangibleassets''),
   (''non_current_deferred_refundable_income_taxes'', ''noncurrentdeferredtaxassets''),
   (''employee_benefit_assets'', ''employeebenefitassets''), (''other_assets'', ''otherassets''),
   (''other_non_current_operating_assets'', ''othernoncurrentassets''), (''total_assets'',
   ''totalassets''), (''other_non_current_non_operating_assets'',
   ''othernoncurrentnonoperatingassets''), (''non_interest_bearing_deposits'',
   ''noninterestbearingdeposits''), (''interest_bearing_deposits'', ''interestbearingdeposits''),
   (''total_non_current_assets'', ''totalnoncurrentassets''),
   (''federal_funds_purchased_and_securities_sold'', ''fedfundspurchased''),
   (''short_term_debt'', ''shorttermdebt''), (''bankers_acceptance_out_standing'',
   ''bankersacceptances''), (''accrued_interest_payable'', ''accruedinterestpayable''),
   (''accounts_payable'', ''accountspayable''), (''accrued_expenses'', ''accruedexpenses''),
   (''other_short_term_payables'', ''othershorttermpayables''), (''long_term_debt'',
   ''longtermdebt''), (''customer_deposits'', ''customerdeposits''),
   (''capital_lease_obligations'', ''capitalleaseobligations''), (''dividends_payable'',
   ''dividendspayable''), (''claims_and_claim_expense'', ''claimsandclaimexpenses''),
   (''current_deferred_revenue'', ''currentdeferredrevenue''), (''future_policy_benefits'',
   ''futurepolicybenefits''), (''current_deferred_payable_income_tax_liabilities'',
   ''currentdeferredtaxliabilities''), (''current_employee_benefit_liabilities'',
   ''currentemployeebenefitliabilities''), (''unearned_premiums_liability'',
   ''unearnedpremiumscredit''), (''other_taxes_payable'', ''othertaxespayable''),
   (''policy_holder_funds'', ''policyholderfunds''), (''other_current_liabilities'',
   ''othercurrentliabilities''), (''participating_policy_holder_equity'',
   ''participatingpolicyholderequity''), (''other_current_non_operating_liabilities'',
   ''othercurrentnonoperatingliabilities''), (''separate_account_business_liabilities'',
   ''separateaccountbusinessliabilities''), (''total_current_liabilities'',
   ''totalcurrentliabilities''), (''other_long_term_liabilities'', ''otherlongtermliabilities''),
   (''total_liabilities'', ''totalliabilities''), (''commitments_contingencies'',
   ''commitmentsandcontingencies''), (''asset_retirement_reserve_litigation_obligation'',
   ''assetretirementandlitigationobligation''), (''redeemable_non_controlling_interest'',
   ''redeemablenoncontrollinginterest''), (''non_current_deferred_revenue'',
   ''noncurrentdeferredrevenue''), (''preferred_stock'', ''totalpreferredequity''),
   (''common_stock'', ''commonequity''),
   (''non_current_deferred_payable_income_tax_liabilities'',
   ''noncurrentdeferredtaxliabilities''), (''non_current_employee_benefit_liabilities'',
   ''noncurrentemployeebenefitliabilities''), (''retained_earnings'', ''retainedearnings''),
   (''other_non_current_operating_liabilities'', ''othernoncurrentliabilities''),
   (''treasury_stock'', ''treasurystock''), (''accumulated_other_comprehensive_income'',
   ''aoci''), (''other_non_current_non_operating_liabilities'',
   ''othernoncurrentnonoperatingliabilities''), (''other_equity_adjustments'', ''otherequity''),
   (''total_non_current_liabilities'', ''totalnoncurrentliabilities''), (''total_common_equity'',
   ''totalcommonequity''), (''total_preferred_common_equity'', ''totalequity''),
   (''non_controlling_interest'', ''noncontrollinginterests''),
   (''total_equity_non_controlling_interests'', ''totalequityandnoncontrollinginterests''),
   (''total_liabilities_shareholders_equity'', ''totalliabilitiesandequity'')]"

text \<open>
  \<^verbatim>\<open>{k: None if v == 0 else v for k, v in values.items()}\<close>: the keys stay, and so
  does their order.
\<close>

definition replace_zero :: "pydict \<Rightarrow> pydict" where
  "replace_zero values = map (\<lambda>(k, v). (k, if eq_zero v then PNone else v)) values"

text \<open>
  Modelled from the spec: the application of the alias table by the base record class,
  which is not among the sources. A keyword that is the vendor tag of an entry of the
  table is renamed to the field name of that entry, and any other keyword is left as it
  is; when two keywords come to the same name, the later one in the dict stays.
\<close>

definition field_of_key :: "string \<Rightarrow> string" where
  "field_of_key k =
     (case map_of (map (\<lambda>(field, tag). (tag, field)) alias_dict) k of
        None \<Rightarrow> k
      | Some field \<Rightarrow> field)"

definition use_alias :: "pydict \<Rightarrow> pydict" where
  "use_alias values = dict_of_items (map (\<lambda>(k, v). (field_of_key k, v)) values)"

text \<open>
  The filling of a field annotated \<^verbatim>\<open>Optional[int]\<close>, as the schema library does
  it when it is not strict. \<^verbatim>\<open>None\<close> and an int are stored as they are and a bool
  as the int it is. A float is stored as the int it equals when it is finite, has no
  fractional part and lies strictly between \<open>- 2 ^ 63\<close> and \<open>2 ^ 63\<close>, and is a
  validation error otherwise. A list or a dict is a validation error.
\<close>

definition float_as_int :: "pyfloat \<Rightarrow> error + int" where
  "float_as_int w =
     (let n = unat w;
          biased = (n div 2 ^ 52) mod 2 ^ 11;
          sig = 2 ^ 52 + n mod 2 ^ 52;
          sgn = (if 2 ^ 63 \<le> n then - 1 else 1 :: int)
      in if float_is_zero w then Inr 0
         else if biased = 2047 then Inl ValidationError
         else if biased = 0 then Inl ValidationError
         else if 1075 \<le> biased then
           (if 1085 < biased then Inl ValidationError
            else Inr (sgn * int (sig * 2 ^ (biased - 1075))))
         else if sig mod 2 ^ (1075 - biased) = 0
           then Inr (sgn * int (sig div 2 ^ (1075 - biased)))
         else Inl ValidationError)"

fun validate_optional_int :: "parsers \<Rightarrow> pyval \<Rightarrow> error + pyval" where
  "validate_optional_int P PNone = Inr PNone"
| "validate_optional_int P (PBool b) = Inr (PInt (if b then 1 else 0))"
| "validate_optional_int P (PInt n) = Inr (PInt n)"
| "validate_optional_int P (PFloat w) =
     (case float_as_int w of Inl e \<Rightarrow> Inl e | Inr n \<Rightarrow> Inr (PInt n))"
| "validate_optional_int P (PStr s) =
     (case int_of_str P s of Inl e \<Rightarrow> Inl e | Inr n \<Rightarrow> Inr (PInt n))"
| "validate_optional_int P (PList xs) = Inl ValidationError"
| "validate_optional_int P (PDict kvs) = Inl ValidationError"

text \<open>A constructed record: its fields by name.\<close>

type_synonym balance_sheet_record = "string \<rightharpoonup> pyval"

text \<open>
  Modelled from the spec: what the base record class, which is not among the sources,
  does with a keyword that names no field after the aliases are applied. The spec has
  a tag outside the standardized field set dropped without an error. The three header
  fields are declared by the base class and hold the value handed to them.
\<close>

definition fill_fields :: "parsers \<Rightarrow> pydict \<Rightarrow> error + balance_sheet_record" where
  "fill_fields P values =
     (if \<exists>f\<in>set declared_fields.
           case map_of values f of None \<Rightarrow> False | Some v \<Rightarrow> isl (validate_optional_int P v)
      then Inl ValidationError
      else Inr (\<lambda>f. if f \<in> set declared_fields
                     then map_option (\<lambda>v. projr (validate_optional_int P v)) (map_of values f)
                   else if f \<in> set header_fields then map_of values f
                   else None))"

text \<open>
  \<^verbatim>\<open>IntrinioBalanceSheetData(**sub_dict)\<close>: the class's own validator
  \<open>replace_zero\<close> is declared \<^verbatim>\<open>mode="before"\<close> and runs on the keyword arguments
  before the fields are filled.
\<close>

definition IntrinioBalanceSheetData :: "parsers \<Rightarrow> pydict \<Rightarrow> error + balance_sheet_record" where
  "IntrinioBalanceSheetData P kwargs = fill_fields P (use_alias (replace_zero kwargs))"

text \<open>Reading a field: one that was given no value has the default \<^verbatim>\<open>None\<close>.\<close>

definition get_field :: "balance_sheet_record \<Rightarrow> string \<Rightarrow> pyval" where
  "get_field r k = (case r k of None \<Rightarrow> PNone | Some v \<Rightarrow> v)"

subsection \<open>Transformation\<close>

text \<open>
  \<^verbatim>\<open>float(sub_item["value"]) if sub_item["value"] and sub_item["value"] != 0 else None\<close>
\<close>

definition coerce_value :: "parsers \<Rightarrow> pyval \<Rightarrow> error + pyval" where
  "coerce_value P v =
     (if truthy v \<and> \<not> eq_zero v
      then (case py_float P v of Inl e \<Rightarrow> Inl e | Inr f \<Rightarrow> Inr (PFloat f))
      else Inr PNone)"

text \<open>The inner loop: each line item is stored under its tag, a later item replacing an earlier one.\<close>

fun line_items :: "parsers \<Rightarrow> pydict \<Rightarrow> (string \<times> pyval) list \<Rightarrow> error + pydict" where
  "line_items P sub_dict [] = Inr sub_dict"
| "line_items P sub_dict ((field_name, v) # rest) =
     (case coerce_value P v of
        Inl e \<Rightarrow> Inl e
      | Inr x \<Rightarrow> line_items P (dict_set sub_dict field_name x) rest)"

text \<open>
  The three header keys are assigned after the line items, and the fiscal period of an
  annual statement is rewritten when the query asked for quarters.
\<close>

definition attach_header :: "query \<Rightarrow> statement \<Rightarrow> pydict \<Rightarrow> pydict" where
  "attach_header q item sub_dict =
     (let d1 = dict_set sub_dict ''period_ending'' (period_ending item);
          d2 = dict_set d1 ''fiscal_year'' (stmt_fiscal_year item);
          d3 = dict_set d2 ''fiscal_period'' (fiscal_period item)
      in if period q = ''QTR'' \<and> fiscal_period item = PStr ''FY''
         then dict_set d3 ''fiscal_period'' (PStr ''Q4'') else d3)"

text \<open>The body of the outer loop up to the construction of the record.\<close>

definition sub_dict_of :: "parsers \<Rightarrow> query \<Rightarrow> statement \<Rightarrow> error + pydict" where
  "sub_dict_of P q item =
     (case line_items P [] (financials item) of
        Inl e \<Rightarrow> Inl e
      | Inr d \<Rightarrow> Inr (attach_header q item d))"

definition transform_item ::
  "parsers \<Rightarrow> query \<Rightarrow> statement \<Rightarrow> error + balance_sheet_record" where
  "transform_item P q item =
     (case sub_dict_of P q item of
        Inl e \<Rightarrow> Inl e
      | Inr d \<Rightarrow> IntrinioBalanceSheetData P d)"

fun transform_data ::
  "parsers \<Rightarrow> query \<Rightarrow> statement list \<Rightarrow> error + balance_sheet_record list" where
  "transform_data P q [] = Inr []"
| "transform_data P q (item # data) =
     (case transform_item P q item of
        Inl e \<Rightarrow> Inl e
      | Inr r \<Rightarrow>
          (case transform_data P q data of
             Inl e \<Rightarrow> Inl e
           | Inr rs \<Rightarrow> Inr (r # rs)))"

subsection \<open>Extraction\<close>

text \<open>How an f-string renders an int.\<close>

fun str_nat :: "nat \<Rightarrow> string" where
  "str_nat n =
     (if n < 10 then [''0123456789'' ! n]
      else str_nat (n div 10) @ [''0123456789'' ! (n mod 10)])"

declare str_nat.simps [simp del]

definition str_int :: "int \<Rightarrow> string" where
  "str_int i = (if i < 0 then CHR ''-'' # str_nat (nat (- i)) else str_nat (nat i))"

text \<open>How an f-string renders the API key, which is a str or \<^verbatim>\<open>None\<close>.\<close>

definition str_key :: "string option \<Rightarrow> string" where
  "str_key api_key = (case api_key of None \<Rightarrow> ''None'' | Some k \<Rightarrow> k)"

text \<open>
  The vendor's answers, in the shapes the code subscripts: an entry of the listing
  carries a fiscal year and a fiscal period, the payload of one period carries the
  \<^verbatim>\<open>fundamental\<close> header and the line items.
\<close>

record listing_entry =
  entry_fiscal_year :: int
  entry_fiscal_period :: string

record payload =
  end_date :: pyval
  fundamental_fiscal_year :: pyval
  fundamental_fiscal_period :: pyval
  standardized_financials :: "(string \<times> pyval) list"

text \<open>
  The network is a parameter: \<open>get_data_one\<close> answers the listing request with the
  decoded JSON object, of which only the key \<^verbatim>\<open>fundamentals\<close> is read (\<open>None\<close>
  when the object has no such key), and \<open>request\<close> answers one per-period request.
  Either can raise.
\<close>

record vendor =
  get_data_one :: "string \<Rightarrow> error + listing_entry list option"
  request :: "string \<Rightarrow> error + payload"

text \<open>
  Modelled from the spec: the shared helper \<^verbatim>\<open>amake_requests\<close>, which is not among
  the sources. It issues every request, and either returns all the results in the
  order of the requests or raises.
\<close>

fun amake_requests :: "(string \<Rightarrow> error + 'r) \<Rightarrow> string list \<Rightarrow> ('r \<Rightarrow> 'a) \<Rightarrow> error + 'a list" where
  "amake_requests req [] callback = Inr []"
| "amake_requests req (url # urls) callback =
     (case req url of
        Inl e \<Rightarrow> Inl e
      | Inr response \<Rightarrow>
          (case amake_requests req urls callback of
             Inl e \<Rightarrow> Inl e
           | Inr results \<Rightarrow> Inr (callback response # results)))"

definition callback :: "payload \<Rightarrow> statement" where
  "callback statement_data =
     \<lparr>period_ending = end_date statement_data,
      stmt_fiscal_year = fundamental_fiscal_year statement_data,
      fiscal_period = fundamental_fiscal_period statement_data,
      financials = standardized_financials statement_data\<rparr>"

definition base_url :: string where
  "base_url = ''https://api-v2.intrinio.com''"

definition statement_code :: string where
  "statement_code = ''balance_sheet_statement''"

definition warning_2008 :: string where
  "warning_2008 = ''Financials data is only available from 2008 and later.''"

text \<open>\<^verbatim>\<open>credentials.get("intrinio_api_key") if credentials else ""\<close>\<close>

definition api_key_of :: "(string \<times> string) list option \<Rightarrow> string option" where
  "api_key_of credentials =
     (case credentials of
        None \<Rightarrow> Some []
      | Some c \<Rightarrow> if c = [] then Some [] else map_of c ''intrinio_api_key'')"

text \<open>\<^verbatim>\<open>f"{item['fiscal_year']}-{item['fiscal_period']}"\<close>\<close>

definition fiscal_period_ref :: "listing_entry \<Rightarrow> string" where
  "fiscal_period_ref item = str_int (entry_fiscal_year item) @ ''-'' @ entry_fiscal_period item"

definition period_url :: "query \<Rightarrow> string option \<Rightarrow> string \<Rightarrow> string" where
  "period_url q api_key period_ref =
     base_url @ ''/fundamentals/'' @ symbol q @ ''-'' @ statement_code @ ''-'' @ period_ref
       @ ''/standardized_financials?api_key='' @ str_key api_key"

text \<open>
  What a call of \<^verbatim>\<open>aextract_data\<close> leaves behind: the query object as it is
  afterwards (the function assigns to it), the warnings emitted, the URLs requested in
  the order of issue, and the value returned or the exception raised.
\<close>

record extraction =
  query_after :: query
  warnings :: "string list"
  requests :: "string list"
  result :: "error + statement list"

text \<open>
  The second half of \<^verbatim>\<open>aextract_data\<close>, from the listing request on: the listing
  is fetched, one reference is derived per entry, the references are cut to
  \<^verbatim>\<open>query.limit\<close>, and one URL per remaining reference is requested.
\<close>

definition fetch_statements ::
  "vendor \<Rightarrow> query \<Rightarrow> string option \<Rightarrow> string list \<Rightarrow> string \<Rightarrow> extraction" where
  "fetch_statements V q api_key warned fundamentals_url =
     (case get_data_one V fundamentals_url of
        Inl e \<Rightarrow>
          \<lparr>query_after = q, warnings = warned, requests = [fundamentals_url], result = Inl e\<rparr>
      | Inr response \<Rightarrow>
          let fundamentals_data = (case response of None \<Rightarrow> [] | Some entries \<Rightarrow> entries);
              fiscal_periods = map fiscal_period_ref fundamentals_data;
              fiscal_periods = take (limit q) fiscal_periods;
              urls = map (period_url q api_key) fiscal_periods
          in \<lparr>query_after = q, warnings = warned, requests = fundamentals_url # urls,
              result = amake_requests (request V) urls callback\<rparr>)"

text \<open>
  The first half: the API key, the listing URL, and the fiscal year, which is raised to
  2008 by an assignment to the query object, with a warning.
\<close>

definition aextract_data ::
  "vendor \<Rightarrow> query \<Rightarrow> (string \<times> string) list option \<Rightarrow> extraction" where
  "aextract_data V q credentials =
     (let api_key = api_key_of credentials;
          fundamentals_url =
            base_url @ ''/companies/'' @ symbol q @ ''/fundamentals?''
              @ ''statement_code='' @ statement_code @ ''&type='' @ period q;
          warned = (case fiscal_year q of None \<Rightarrow> False | Some y \<Rightarrow> y < 2008);
          q = (if warned then q\<lparr>fiscal_year := Some 2008\<rparr> else q);
          fundamentals_url =
            (case fiscal_year q of
               None \<Rightarrow> fundamentals_url
             | Some y \<Rightarrow> fundamentals_url @ ''&fiscal_year='' @ str_int y);
          fundamentals_url = fundamentals_url @ ''&api_key='' @ str_key api_key
      in fetch_statements V q api_key (if warned then [warning_2008] else []) fundamentals_url)"

text \<open>
  Modelled from the spec: the base fetcher, which is not among the sources, runs the
  three stages in order, handing the same query object to extraction and then to
  transformation.
\<close>

definition fetch_data ::
  "parsers \<Rightarrow> vendor \<Rightarrow> params \<Rightarrow> (string \<times> string) list option
     \<Rightarrow> error + balance_sheet_record list" where
  "fetch_data P V ps credentials =
     (case transform_query ps of
        Inl e \<Rightarrow> Inl e
      | Inr q \<Rightarrow>
          let X = aextract_data V q credentials
          in (case result X of
                Inl e \<Rightarrow> Inl e
              | Inr data \<Rightarrow> transform_data P (query_after X) data))"

text \<open>
  The URL of the listing request in one expression, for the statements below: the
  year it carries is the query's, raised to 2008.
\<close>

definition listing_url :: "query \<Rightarrow> (string \<times> string) list option \<Rightarrow> string" where
  "listing_url q c =
     base_url @ ''/companies/'' @ symbol q @ ''/fundamentals?''
       @ ''statement_code='' @ statement_code @ ''&type='' @ period q
       @ (case fiscal_year q of
            None \<Rightarrow> []
          | Some y \<Rightarrow> ''&fiscal_year='' @ str_int (if y < 2008 then 2008 else y))
       @ ''&api_key='' @ str_key (api_key_of c)"

subsection \<open>Example inputs\<close>

text \<open>Parsers that accept no str.\<close>

definition reject_float :: "string \<Rightarrow> error + pyfloat" where
  "reject_float s = Inl ValueError"

definition reject_int :: "string \<Rightarrow> error + int" where
  "reject_int s = Inl ValidationError"

definition reject_str :: parsers where
  "reject_str = \<lparr>float_of_str = reject_float, int_of_str = reject_int\<rparr>"

definition annual_params :: params where
  "annual_params =
     \<lparr>p_symbol = ''BRK-B'', p_period = ''annual'', p_fiscal_year = Some 2007, p_limit = 2\<rparr>"

definition quarter_params :: params where
  "quarter_params =
     \<lparr>p_symbol = ''AAPL'', p_period = ''quarter'', p_fiscal_year = Some 2021, p_limit = 2\<rparr>"

definition monthly_params :: params where
  "monthly_params =
     \<lparr>p_symbol = ''AAPL'', p_period = ''monthly'', p_fiscal_year = None, p_limit = 2\<rparr>"

definition annual_query :: query where
  "annual_query = \<lparr>symbol = ''BRK.B'', period = ''FY'', fiscal_year = Some 2007, limit = 2\<rparr>"

definition quarter_query :: query where
  "quarter_query = \<lparr>symbol = ''AAPL'', period = ''QTR'', fiscal_year = Some 2021, limit = 2\<rparr>"

definition sample_statement :: statement where
  "sample_statement =
     \<lparr>period_ending = PStr ''2023-12-31'', stmt_fiscal_year = PInt 2023,
      fiscal_period = PStr ''FY'',
      financials = [(''goodwill'', PInt 5), (''unknowntag'', PInt 7), (''total_assets'', PInt 0)]\<rparr>"

definition duplicate_statement :: statement where
  "duplicate_statement =
     \<lparr>period_ending = PStr ''2023-12-31'', stmt_fiscal_year = PInt 2023,
      fiscal_period = PStr ''FY'',
      financials = [(''goodwill'', PInt 0), (''goodwill'', PInt 5)]\<rparr>"

text \<open>
  A statement that names a field by its vendor tag, one whose value has a fractional
  part (5.5), and one whose value is no number.
\<close>

definition alias_statement :: statement where
  "alias_statement =
     \<lparr>period_ending = PStr ''2023-12-31'', stmt_fiscal_year = PInt 2023,
      fiscal_period = PStr ''FY'',
      financials = [(''totalassets'', PInt 100), (''goodwill'', PInt 0)]\<rparr>"

definition fractional_statement :: statement where
  "fractional_statement =
     \<lparr>period_ending = PStr ''2023-12-31'', stmt_fiscal_year = PInt 2023,
      fiscal_period = PStr ''FY'',
      financials = [(''goodwill'', PFloat 0x4016000000000000)]\<rparr>"

definition rejected_statement :: statement where
  "rejected_statement =
     \<lparr>period_ending = PStr ''2023-12-31'', stmt_fiscal_year = PInt 2023,
      fiscal_period = PStr ''FY'',
      financials = [(''unknowntag'', PStr ''n/a'')]\<rparr>"

text \<open>
  A vendor that lists three annual periods and answers every per-period request with a
  payload that carries the requested URL as its end date, and a vendor that fails.
\<close>

definition scenario_params :: params where
  "scenario_params =
     \<lparr>p_symbol = ''BRK-B'', p_period = ''annual'', p_fiscal_year = None, p_limit = 2\<rparr>"

definition scenario_query :: query where
  "scenario_query = \<lparr>symbol = ''BRK.B'', period = ''FY'', fiscal_year = None, limit = 2\<rparr>"

definition stub_listing :: "listing_entry list" where
  "stub_listing =
     [\<lparr>entry_fiscal_year = 2023, entry_fiscal_period = ''FY''\<rparr>,
      \<lparr>entry_fiscal_year = 2022, entry_fiscal_period = ''FY''\<rparr>,
      \<lparr>entry_fiscal_year = 2021, entry_fiscal_period = ''FY''\<rparr>]"

definition stub_payload :: "string \<Rightarrow> payload" where
  "stub_payload url =
     \<lparr>end_date = PStr url, fundamental_fiscal_year = PInt 2023,
      fundamental_fiscal_period = PStr ''FY'',
      standardized_financials = [(''goodwill'', PInt 5)]\<rparr>"

definition stub_get_data_one :: "string \<Rightarrow> error + listing_entry list option" where
  "stub_get_data_one url = Inr (Some stub_listing)"

definition stub_request :: "string \<Rightarrow> error + payload" where
  "stub_request url = Inr (stub_payload url)"

definition stub_vendor :: vendor where
  "stub_vendor = \<lparr>get_data_one = stub_get_data_one, request = stub_request\<rparr>"

definition offline_get_data_one :: "string \<Rightarrow> error + listing_entry list option" where
  "offline_get_data_one url = Inl (RequestError url)"

definition offline_request :: "string \<Rightarrow> error + payload" where
  "offline_request url = Inl (RequestError url)"

definition offline_vendor :: vendor where
  "offline_vendor = \<lparr>get_data_one = offline_get_data_one, request = offline_request\<rparr>"

section \<open>Properties\<close>

subsection \<open>Floats that are not zero\<close>

lemma pack_double_nonzero:
  assumes "0 < biased" "biased < 2047"
  shows "\<not> float_is_zero (pack_double neg biased sig)"
proof -
  define y where "y = biased * 2 ^ 52 + sig mod 2 ^ 52"
  have lt: "sig mod 2 ^ 52 < (2::nat) ^ 52" by simp
  have "y < 2047 * 2 ^ 52" using assms lt unfolding y_def by simp
  then have y63: "y < 2 ^ 63" by simp
  have ypos: "0 < y" using assms unfolding y_def by simp
  have tb: "take_bit 63 ((if neg then 2 ^ 63 else 0) + y) = y"
    using y63 by (simp add: take_bit_eq_mod)
  have "pack_double neg biased sig = word_of_nat ((if neg then 2 ^ 63 else 0) + y)"
    by (simp add: pack_double_def y_def add.assoc)
  then have "take_bit 63 (pack_double neg biased sig) = (word_of_nat y :: 64 word)"
    using tb by (metis of_nat_take_bit)
  moreover have "(word_of_nat y :: 64 word) \<noteq> 0"
  proof
    assume "(word_of_nat y :: 64 word) = 0"
    then have "2 ^ 64 dvd y" by (simp add: word_of_nat_eq_0_iff)
    then have "2 ^ 64 \<le> y" using ypos by (rule dvd_imp_le)
    then show False using y63 by simp
  qed
  ultimately show ?thesis by (simp add: float_is_zero_def)
qed

lemma float_of_int_nonzero:
  assumes "n \<noteq> 0" "float_of_int n = Inr f"
  shows "\<not> float_is_zero f"
proof -
  define m where "m = nat \<bar>n\<bar>"
  define bl where "bl = bit_length m"
  define q where "q = (if bl \<le> 53 then m * 2 ^ (53 - bl) else round_half_even m (bl - 53))"
  define e where "e = (if q = 2 ^ 53 then bl else bl - 1)"
  have eq: "float_of_int n =
      (if 1023 < e then Inl OverflowError else Inr (pack_double (n < 0) (e + 1023) q))"
    using assms(1) unfolding float_of_int_def m_def bl_def q_def e_def Let_def by simp
  from assms(2) have e: "\<not> 1023 < e" and f: "f = pack_double (n < 0) (e + 1023) q"
    unfolding eq by (simp_all split: if_splits)
  have "0 < e + 1023" "e + 1023 < 2047" using e by simp_all
  then show ?thesis unfolding f by (rule pack_double_nonzero)
qed

lemma float_one_nonzero: "\<not> float_is_zero float_one"
  by (simp add: float_one_def pack_double_nonzero)


subsection \<open>Dicts\<close>

lemma map_of_dict_set: "map_of (dict_set d k v) = (map_of d)(k \<mapsto> v)"
  by (induction d) (auto simp: fun_eq_iff)

lemma keys_dict_set: "fst ` set (dict_set d k v) = insert k (fst ` set d)"
proof -
  have "dom (map_of (dict_set d k v)) = insert k (dom (map_of d))"
    by (simp add: map_of_dict_set)
  then show ?thesis by (simp add: dom_map_of_conv_image_fst)
qed

lemma distinct_dict_set:
  "distinct (map fst d) \<Longrightarrow> distinct (map fst (dict_set d k v))"
proof (induction d)
  case Nil
  show ?case by simp
next
  case (Cons a d)
  obtain k' v' where a: "a = (k', v')" by (cases a)
  show ?case
  proof (cases "k' = k")
    case True
    with Cons.prems show ?thesis by (simp add: a)
  next
    case False
    have "fst ` set (dict_set d k v) = insert k (fst ` set d)" by (rule keys_dict_set)
    with Cons False show ?thesis by (auto simp: a)
  qed
qed

lemma values_dict_set:
  "(k', v') \<in> set (dict_set d k v) \<Longrightarrow> (k', v') \<in> set d \<or> (k' = k \<and> v' = v)"
  by (induction d) (auto split: if_splits)

lemma map_of_foldl_dict_set:
  "map_of (foldl (\<lambda>d (k, v). dict_set d k v) d xs) = map_of d ++ map_of (rev xs)"
proof (induction xs arbitrary: d)
  case Nil
  show ?case by simp
next
  case (Cons a xs)
  obtain k v where a: "a = (k, v)" by (cases a)
  have "map_of (foldl (\<lambda>d (k, v). dict_set d k v) d (a # xs))
          = map_of (dict_set d k v) ++ map_of (rev xs)"
    by (simp add: a Cons.IH)
  also have "\<dots> = map_of d ++ map_of (rev (a # xs))"
    by (auto simp: a map_of_dict_set fun_eq_iff map_add_def split: option.splits)
  finally show ?case .
qed

lemma map_of_dict_of_items: "map_of (dict_of_items xs) = map_of (rev xs)"
  by (simp add: dict_of_items_def map_of_foldl_dict_set)

lemma map_of_rev_distinct:
  assumes "distinct (map fst xs)"
  shows "map_of (rev xs) = map_of xs"
proof
  fix k
  have d: "distinct (map fst (rev xs))" using assms by (simp add: rev_map[symmetric])
  show "map_of (rev xs) k = map_of xs k"
  proof (cases "map_of xs k")
    case None
    then have "k \<notin> fst ` set xs" by (simp add: map_of_eq_None_iff)
    then have "map_of (rev xs) k = None" by (simp add: map_of_eq_None_iff)
    with None show ?thesis by simp
  next
    case (Some v)
    then have "(k, v) \<in> set (rev xs)" by (auto dest: map_of_SomeD)
    with d have "map_of (rev xs) k = Some v" by (rule map_of_is_SomeI)
    with Some show ?thesis by simp
  qed
qed

text \<open>Looking a name up after the keys are renamed and the values changed.\<close>

lemma map_of_renamed_unique:
  assumes "\<forall>k\<in>fst ` set xs. g k = g t \<longrightarrow> k = t"
  shows "map_of (rev (map (\<lambda>(k, v). (g k, h v)) xs)) (g t) = map_option h (map_of (rev xs) t)"
  using assms
proof (induction xs)
  case Nil
  show ?case by simp
next
  case (Cons a xs)
  obtain k v where a: "a = (k, v)" by (cases a)
  from Cons.prems have "\<forall>k\<in>fst ` set xs. g k = g t \<longrightarrow> k = t" by simp
  then have IH: "map_of (rev (map (\<lambda>(k, v). (g k, h v)) xs)) (g t)
                   = map_option h (map_of (rev xs) t)"
    by (rule Cons.IH)
  from Cons.prems have kt: "g k = g t \<longrightarrow> k = t" by (simp add: a)
  show ?case using IH kt by (auto simp: a map_add_def split: option.splits)
qed


lemma map_of_renamed_SomeD:
  assumes "map_of (rev (map (\<lambda>(k, v). (g k, h v)) xs)) f = Some y"
  shows "\<exists>(k, v)\<in>set xs. g k = f \<and> y = h v"
  using map_of_SomeD[OF assms] by auto

lemma map_of_renamed_filter:
  assumes "g t \<noteq> f"
  shows "map_of (rev (map (\<lambda>(k, v). (g k, h v)) xs)) f
           = map_of (rev (map (\<lambda>(k, v). (g k, h v)) (filter (\<lambda>kv. fst kv \<noteq> t) xs))) f"
  using assms
proof (induction xs)
  case Nil
  show ?case by simp
next
  case (Cons a xs)
  obtain k v where a: "a = (k, v)" by (cases a)
  show ?case using Cons by (auto simp: a map_add_def split: option.splits)
qed

lemma filter_dict_set_same:
  "filter (\<lambda>kv. fst kv \<noteq> t) (dict_set d t v) = filter (\<lambda>kv. fst kv \<noteq> t) d"
  by (induction d) auto

lemma filter_dict_set_other:
  "k \<noteq> t \<Longrightarrow>
     filter (\<lambda>kv. fst kv \<noteq> t) (dict_set d k v) = dict_set (filter (\<lambda>kv. fst kv \<noteq> t) d) k v"
  by (induction d) auto

subsection \<open>The line item loop\<close>

lemma line_items_append:
  "line_items F d (xs @ ys) =
     (case line_items F d xs of Inl e \<Rightarrow> Inl e | Inr d' \<Rightarrow> line_items F d' ys)"
  by (induction xs arbitrary: d) (auto split: sum.splits)

lemma line_items_other:
  "line_items F d ys = Inr d' \<Longrightarrow> t \<notin> fst ` set ys \<Longrightarrow> map_of d' t = map_of d t"
  by (induction ys arbitrary: d) (auto simp: map_of_dict_set split: sum.splits)

lemma line_items_last:
  assumes "line_items F d (before @ (t, v) # after) = Inr d'" "t \<notin> fst ` set after"
  shows "\<exists>x. coerce_value F v = Inr x \<and> map_of d' t = Some x"
proof -
  from assms(1) obtain d0 where d0: "line_items F d before = Inr d0"
    and rest: "line_items F d0 ((t, v) # after) = Inr d'"
    by (auto simp: line_items_append split: sum.splits)
  from rest obtain x where x: "coerce_value F v = Inr x"
    and after: "line_items F (dict_set d0 t x) after = Inr d'"
    by (auto split: sum.splits)
  from line_items_other[OF after assms(2)] x show ?thesis by (simp add: map_of_dict_set)
qed

lemma line_items_keys:
  "line_items F d xs = Inr d' \<Longrightarrow> fst ` set d' = fst ` set d \<union> fst ` set xs"
proof (induction xs arbitrary: d)
  case Nil
  then show ?case by simp
next
  case (Cons a xs)
  obtain t v where a: "a = (t, v)" by (cases a)
  from Cons.prems obtain x where "line_items F (dict_set d t x) xs = Inr d'"
    by (auto simp: a split: sum.splits)
  from Cons.IH[OF this] show ?case by (auto simp: a keys_dict_set)
qed

lemma line_items_distinct:
  "line_items F d xs = Inr d' \<Longrightarrow> distinct (map fst d) \<Longrightarrow> distinct (map fst d')"
proof (induction xs arbitrary: d)
  case Nil
  then show ?case by simp
next
  case (Cons a xs)
  obtain t v where a: "a = (t, v)" by (cases a)
  from Cons.prems obtain x where x: "line_items F (dict_set d t x) xs = Inr d'"
    by (auto simp: a split: sum.splits)
  from Cons.prems have "distinct (map fst (dict_set d t x))" by (simp add: distinct_dict_set)
  with Cons.IH[OF x] show ?case by simp
qed


lemma line_items_isl:
  "isl (line_items F d xs) \<longleftrightarrow> (\<exists>tv\<in>set xs. isl (coerce_value F (snd tv)))"
proof (induction xs arbitrary: d)
  case Nil
  show ?case by simp
next
  case (Cons a xs)
  obtain t v where a: "a = (t, v)" by (cases a)
  show ?case
  proof (cases "coerce_value F v")
    case (Inl e)
    then show ?thesis by (simp add: a)
  next
    case (Inr x)
    then show ?thesis by (simp add: a Cons.IH)
  qed
qed

lemma line_items_rel:
  "filter (\<lambda>kv. fst kv \<noteq> t) d = filter (\<lambda>kv. fst kv \<noteq> t) d' \<Longrightarrow>
   rel_sum (=) (\<lambda>r r'. filter (\<lambda>kv. fst kv \<noteq> t) r = filter (\<lambda>kv. fst kv \<noteq> t) r')
     (line_items F d ys) (line_items F d' ys)"
proof (induction ys arbitrary: d d')
  case Nil
  then show ?case by simp
next
  case (Cons a ys)
  obtain t' v' where a: "a = (t', v')" by (cases a)
  show ?case
  proof (cases "coerce_value F v'")
    case (Inl e)
    then show ?thesis by (simp add: a)
  next
    case (Inr x)
    have "filter (\<lambda>kv. fst kv \<noteq> t) (dict_set d t' x)
            = filter (\<lambda>kv. fst kv \<noteq> t) (dict_set d' t' x)"
      using Cons.prems by (cases "t' = t") (simp_all add: filter_dict_set_same filter_dict_set_other)
    then have "rel_sum (=) (\<lambda>r r'. filter (\<lambda>kv. fst kv \<noteq> t) r = filter (\<lambda>kv. fst kv \<noteq> t) r')
            (line_items F (dict_set d t' x) ys) (line_items F (dict_set d' t' x) ys)"
      by (rule Cons.IH)
    then show ?thesis by (simp add: a Inr)
  qed
qed

subsection \<open>The header keys\<close>

lemma map_of_attach_header:
  "map_of (attach_header q item d) k =
     (if k = ''fiscal_period''
        then Some (if period q = ''QTR'' \<and> fiscal_period item = PStr ''FY'' then PStr ''Q4''
                   else fiscal_period item)
      else if k = ''fiscal_year'' then Some (stmt_fiscal_year item)
      else if k = ''period_ending'' then Some (period_ending item)
      else map_of d k)"
  by (simp add: attach_header_def Let_def map_of_dict_set)

lemma keys_attach_header:
  "fst ` set (attach_header q item d) = fst ` set d \<union> set header_fields"
  by (auto simp: attach_header_def Let_def keys_dict_set header_fields_def)

lemma distinct_attach_header:
  "distinct (map fst d) \<Longrightarrow> distinct (map fst (attach_header q item d))"
  by (simp add: attach_header_def Let_def distinct_dict_set)

lemma values_attach_header:
  "(k, y) \<in> set (attach_header q item d) \<Longrightarrow> (k, y) \<in> set d \<or> k \<in> set header_fields"
  by (auto simp: attach_header_def Let_def header_fields_def dest!: values_dict_set split: if_splits)

lemma filter_attach_header:
  assumes "t \<notin> set header_fields"
  shows "filter (\<lambda>kv. fst kv \<noteq> t) (attach_header q item d)
           = attach_header q item (filter (\<lambda>kv. fst kv \<noteq> t) d)"
proof -
  from assms have "''period_ending'' \<noteq> t" "''fiscal_year'' \<noteq> t" "''fiscal_period'' \<noteq> t"
    by (auto simp: header_fields_def)
  then show ?thesis by (simp add: attach_header_def Let_def filter_dict_set_other)
qed

lemma attach_header_financials:
  "attach_header q (item\<lparr>financials := xs\<rparr>) d = attach_header q item d"
  by (simp add: attach_header_def)

subsection \<open>Field names and aliases\<close>

lemma declared_not_header:
  "t \<in> set declared_fields \<Longrightarrow>
     t \<noteq> ''period_ending'' \<and> t \<noteq> ''fiscal_year'' \<and> t \<noteq> ''fiscal_period''"
  unfolding declared_fields_def by auto

lemma declared_not_header_fields: "t \<in> set declared_fields \<Longrightarrow> t \<notin> set header_fields"
  using declared_not_header by (auto simp: header_fields_def)

lemma declared_standardized: "t \<in> set declared_fields \<Longrightarrow> t \<in> set standardized_fields"
  by (simp add: standardized_fields_def)

lemma header_standardized: "t \<in> set header_fields \<Longrightarrow> t \<in> set standardized_fields"
  by (simp add: standardized_fields_def)

lemma standardized_cases:
  "t \<in> set standardized_fields \<longleftrightarrow> t \<in> set header_fields \<or> t \<in> set declared_fields"
  by (auto simp: standardized_fields_def)

lemma field_of_key_cases:
  assumes "field_of_key k = f"
  shows "k = f \<or> (f, k) \<in> set alias_dict"
proof (cases "map_of (map (\<lambda>(field, tag). (tag, field)) alias_dict) k")
  case None
  with assms show ?thesis by (simp add: field_of_key_def)
next
  case (Some field)
  with assms have "field = f" by (simp add: field_of_key_def)
  moreover from Some have "(k, field) \<in> set (map (\<lambda>(field, tag). (tag, field)) alias_dict)"
    by (rule map_of_SomeD)
  ultimately show ?thesis by auto
qed

lemma header_no_alias_each:
  "''period_ending'' \<notin> fst ` set alias_dict"
  "''fiscal_year'' \<notin> fst ` set alias_dict"
  "''fiscal_period'' \<notin> fst ` set alias_dict"
  by (simp_all add: alias_dict_def)

lemma header_no_alias:
  assumes "h \<in> set header_fields"
  shows "h \<notin> fst ` set alias_dict"
proof -
  from assms consider "h = ''period_ending''" | "h = ''fiscal_year''" | "h = ''fiscal_period''"
    by (auto simp: header_fields_def)
  then show ?thesis by cases (simp_all only: header_no_alias_each not_False_eq_True)
qed

lemma header_no_tag_each:
  "field_of_key ''period_ending'' = ''period_ending''"
  "field_of_key ''fiscal_year'' = ''fiscal_year''"
  "field_of_key ''fiscal_period'' = ''fiscal_period''"
  by (simp_all add: field_of_key_def alias_dict_def)

lemma header_no_tag:
  assumes "h \<in> set header_fields"
  shows "field_of_key h = h"
proof -
  from assms consider "h = ''period_ending''" | "h = ''fiscal_year''" | "h = ''fiscal_period''"
    by (auto simp: header_fields_def)
  then show ?thesis by cases (simp_all only: header_no_tag_each)
qed

lemma field_of_key_header:
  assumes "h \<in> set header_fields" "field_of_key k = h"
  shows "k = h"
proof -
  from field_of_key_cases[OF assms(2)] have "k = h \<or> (h, k) \<in> set alias_dict" .
  moreover have "(h, k) \<notin> set alias_dict"
    using header_no_alias[OF assms(1)] by (auto simp: image_iff)
  ultimately show ?thesis by simp
qed

subsection \<open>The fields of a record\<close>

lemma values_lookup:
  "map_of (use_alias (replace_zero d)) f =
     map_of (rev (map (\<lambda>(k, v). (field_of_key k, if eq_zero v then PNone else v)) d)) f"
proof -
  have "map (\<lambda>(k, v). (field_of_key k, v)) (map (\<lambda>(k, v). (k, if eq_zero v then PNone else v)) d)
          = map (\<lambda>(k, v). (field_of_key k, if eq_zero v then PNone else v)) d"
    by (induction d) auto
  then show ?thesis
    unfolding use_alias_def replace_zero_def map_of_dict_of_items by (simp only:)
qed

lemma fill_fields_isl:
  "isl (fill_fields P values) \<longleftrightarrow>
     (\<exists>f\<in>set declared_fields. \<exists>v. map_of values f = Some v \<and> isl (validate_optional_int P v))"
  by (auto simp: fill_fields_def split: option.splits)

lemma fill_fields_declared:
  assumes "fill_fields P values = Inr r" "f \<in> set declared_fields"
  shows "case map_of values f of
           None \<Rightarrow> r f = None
         | Some v \<Rightarrow> \<exists>y. validate_optional_int P v = Inr y \<and> r f = Some y"
proof -
  from assms(1) have ok: "\<not> (\<exists>f\<in>set declared_fields.
           case map_of values f of None \<Rightarrow> False | Some v \<Rightarrow> isl (validate_optional_int P v))"
    and r: "r = (\<lambda>f. if f \<in> set declared_fields
                     then map_option (\<lambda>v. projr (validate_optional_int P v)) (map_of values f)
                   else if f \<in> set header_fields then map_of values f
                   else None)"
    by (auto simp: fill_fields_def split: if_splits)
  show ?thesis
  proof (cases "map_of values f")
    case None
    then show ?thesis by (simp add: r assms(2))
  next
    case (Some v)
    with ok assms(2) have "\<not> isl (validate_optional_int P v)" by force
    then obtain y where "validate_optional_int P v = Inr y"
      by (cases "validate_optional_int P v") auto
    then show ?thesis by (simp add: r assms(2) Some)
  qed
qed

lemma fill_fields_header:
  assumes "fill_fields P values = Inr r" "f \<in> set header_fields"
  shows "r f = map_of values f"
  using assms declared_not_header_fields
  by (auto simp: fill_fields_def split: if_splits)

lemma fill_fields_other:
  assumes "fill_fields P values = Inr r" "f \<notin> set standardized_fields"
  shows "r f = None"
  using assms by (auto simp: fill_fields_def standardized_cases split: if_splits)

lemma fill_fields_cong:
  assumes "\<forall>f\<in>set standardized_fields. map_of v1 f = map_of v2 f"
  shows "fill_fields P v1 = fill_fields P v2"
proof -
  have d: "\<And>f. f \<in> set declared_fields \<Longrightarrow> map_of v1 f = map_of v2 f"
    using assms by (simp add: standardized_cases)
  have h: "\<And>f. f \<in> set header_fields \<Longrightarrow> map_of v1 f = map_of v2 f"
    using assms by (simp add: standardized_cases)
  have "(\<exists>f\<in>set declared_fields.
           case map_of v1 f of None \<Rightarrow> False | Some v \<Rightarrow> isl (validate_optional_int P v))
        = (\<exists>f\<in>set declared_fields.
           case map_of v2 f of None \<Rightarrow> False | Some v \<Rightarrow> isl (validate_optional_int P v))"
    using d by auto
  moreover have "(\<lambda>f. if f \<in> set declared_fields
                     then map_option (\<lambda>v. projr (validate_optional_int P v)) (map_of v1 f)
                   else if f \<in> set header_fields then map_of v1 f
                   else None)
        = (\<lambda>f. if f \<in> set declared_fields
                     then map_option (\<lambda>v. projr (validate_optional_int P v)) (map_of v2 f)
                   else if f \<in> set header_fields then map_of v2 f
                   else None)"
    using d h by (auto simp: fun_eq_iff)
  ultimately show ?thesis unfolding fill_fields_def by simp
qed

subsection \<open>The record of a statement\<close>

lemma transform_item_Inr:
  "transform_item F q item = Inr r \<longleftrightarrow>
     (\<exists>d0. line_items F [] (financials item) = Inr d0 \<and>
           IntrinioBalanceSheetData F (attach_header q item d0) = Inr r)"
  by (auto simp: transform_item_def sub_dict_of_def split: sum.splits)

lemma sub_dict_of_Inr:
  "sub_dict_of F q item = Inr d \<longleftrightarrow>
     (\<exists>d0. line_items F [] (financials item) = Inr d0 \<and> d = attach_header q item d0)"
  by (auto simp: sub_dict_of_def split: sum.splits)

lemma sub_dict_keys:
  assumes "line_items F [] (financials item) = Inr d0"
  shows "fst ` set (attach_header q item d0) = fst ` set (financials item) \<union> set header_fields"
    and "distinct (map fst (attach_header q item d0))"
proof -
  from line_items_keys[OF assms] show
    "fst ` set (attach_header q item d0) = fst ` set (financials item) \<union> set header_fields"
    by (simp add: keys_attach_header)
  from line_items_distinct[OF assms] show "distinct (map fst (attach_header q item d0))"
    by (simp add: distinct_attach_header)
qed

text \<open>The value that reaches a declared field filled by one tag only.\<close>

lemma declared_field_lookup:
  assumes d0: "line_items F [] (financials item) = Inr d0"
    and dec: "field_of_key t \<in> set declared_fields"
    and uniq: "\<forall>t'\<in>fst ` set (financials item). field_of_key t' = field_of_key t \<longrightarrow> t' = t"
  shows "map_of (use_alias (replace_zero (attach_header q item d0))) (field_of_key t)
           = map_option (\<lambda>v. if eq_zero v then PNone else v) (map_of d0 t)"
proof -
  let ?d = "attach_header q item d0"
  have nh: "t \<notin> set header_fields"
  proof
    assume h: "t \<in> set header_fields"
    then have "field_of_key t = t" by (rule header_no_tag)
    with dec declared_not_header_fields h show False by auto
  qed
  have u: "\<forall>k\<in>fst ` set ?d. field_of_key k = field_of_key t \<longrightarrow> k = t"
  proof (intro ballI impI)
    fix k assume k: "k \<in> fst ` set ?d" and e: "field_of_key k = field_of_key t"
    from k have "k \<in> fst ` set (financials item) \<or> k \<in> set header_fields"
      by (simp add: sub_dict_keys(1)[OF d0])
    then show "k = t"
    proof
      assume "k \<in> fst ` set (financials item)"
      with uniq e show ?thesis by blast
    next
      assume h: "k \<in> set header_fields"
      then have "field_of_key k = k" by (rule header_no_tag)
      with e dec declared_not_header_fields h show ?thesis by auto
    qed
  qed
  have "map_of (use_alias (replace_zero ?d)) (field_of_key t)
          = map_option (\<lambda>v. if eq_zero v then PNone else v) (map_of (rev ?d) t)"
    unfolding values_lookup using u by (rule map_of_renamed_unique)
  also have "map_of (rev ?d) t = map_of ?d t"
    by (simp add: map_of_rev_distinct sub_dict_keys(2)[OF d0])
  also have "map_of ?d t = map_of d0 t"
    using nh by (auto simp: map_of_attach_header header_fields_def)
  finally show ?thesis .
qed

lemma header_field_lookup:
  assumes d0: "line_items F [] (financials item) = Inr d0" and h: "h \<in> set header_fields"
  shows "map_of (use_alias (replace_zero (attach_header q item d0))) h
           = map_option (\<lambda>v. if eq_zero v then PNone else v) (map_of (attach_header q item d0) h)"
proof -
  let ?d = "attach_header q item d0"
  have hh: "field_of_key h = h" using h by (rule header_no_tag)
  have u: "\<forall>k\<in>fst ` set ?d. field_of_key k = field_of_key h \<longrightarrow> k = h"
    using field_of_key_header[OF h] hh by auto
  have "map_of (use_alias (replace_zero ?d)) (field_of_key h)
          = map_option (\<lambda>v. if eq_zero v then PNone else v) (map_of (rev ?d) h)"
    unfolding values_lookup using u by (rule map_of_renamed_unique)
  then show ?thesis
    by (simp add: hh map_of_rev_distinct sub_dict_keys(2)[OF d0])
qed

subsection \<open>Values that reach a field\<close>



lemma coerce_value_falsy: "\<not> truthy v \<Longrightarrow> coerce_value F v = Inr PNone"
  by (simp add: coerce_value_def)

lemma coerce_value_number:
  assumes "truthy v" "is_number v" "coerce_value F v = Inr x"
  shows "\<exists>f. py_float F v = Inr f \<and> x = PFloat f \<and> \<not> float_is_zero f"
proof (cases v)
  case (PBool b)
  with assms show ?thesis by (auto simp: coerce_value_def float_one_nonzero)
next
  case (PInt n)
  with assms show ?thesis
    by (auto simp: coerce_value_def float_of_int_nonzero split: sum.splits)
next
  case (PFloat w)
  with assms show ?thesis by (auto simp: coerce_value_def)
qed (use assms in auto)




subsection \<open>Records of statements\<close>


lemma record_entry:
  assumes "map_of (use_alias (replace_zero d)) f = Some y"
  shows "\<exists>k x. (k, x) \<in> set d \<and> field_of_key k = f \<and> y = (if eq_zero x then PNone else x)"
proof -
  from assms have "\<exists>(k, x)\<in>set d. field_of_key k = f \<and> y = (if eq_zero x then PNone else x)"
    unfolding values_lookup by (rule map_of_renamed_SomeD)
  then show ?thesis by blast
qed


text \<open>A statement transforms when every value it stores can be stored in an int field.\<close>

lemma transform_item_returns:
  assumes d0: "line_items F [] (financials item) = Inr d0"
    and ok: "\<forall>(k, x)\<in>set d0. \<not> isl (validate_optional_int F (if eq_zero x then PNone else x))"
  shows "\<not> isl (transform_item F q item)"
proof
  assume "isl (transform_item F q item)"
  then have "isl (fill_fields F (use_alias (replace_zero (attach_header q item d0))))"
    by (simp add: transform_item_def sub_dict_of_def d0 IntrinioBalanceSheetData_def)
  then obtain f v where f: "f \<in> set declared_fields"
    and v: "map_of (use_alias (replace_zero (attach_header q item d0))) f = Some v"
    and bad: "isl (validate_optional_int F v)"
    by (auto simp: fill_fields_isl)
  from record_entry[OF v] obtain k x where e: "(k, x) \<in> set (attach_header q item d0)"
    and k: "field_of_key k = f" and vx: "v = (if eq_zero x then PNone else x)" by blast
  have "k \<notin> set header_fields"
  proof
    assume h: "k \<in> set header_fields"
    then have "field_of_key k = k" by (rule header_no_tag)
    with k f declared_not_header_fields h show False by auto
  qed
  with values_attach_header[OF e] have "(k, x) \<in> set d0" by simp
  with ok bad vx show False by auto
qed

lemma declared_field:
  assumes r: "transform_item F q item = Inr r"
    and fin: "financials item = before @ (t, v) # after" and last: "t \<notin> fst ` set after"
    and dec: "field_of_key t \<in> set declared_fields"
    and uniq: "\<forall>t'\<in>fst ` set (financials item). field_of_key t' = field_of_key t \<longrightarrow> t' = t"
  shows "\<exists>x y. coerce_value F v = Inr x \<and>
           validate_optional_int F (if eq_zero x then PNone else x) = Inr y \<and>
           get_field r (field_of_key t) = y"
proof -
  from r obtain d0 where d0: "line_items F [] (financials item) = Inr d0"
    and rr: "fill_fields F (use_alias (replace_zero (attach_header q item d0))) = Inr r"
    by (auto simp: transform_item_Inr IntrinioBalanceSheetData_def)
  from d0 fin last obtain x where x: "coerce_value F v = Inr x" and d0t: "map_of d0 t = Some x"
    using line_items_last by metis
  have "map_of (use_alias (replace_zero (attach_header q item d0))) (field_of_key t)
          = Some (if eq_zero x then PNone else x)"
    by (simp add: declared_field_lookup[OF d0 dec uniq] d0t)
  with fill_fields_declared[OF rr dec] obtain y
    where "validate_optional_int F (if eq_zero x then PNone else x) = Inr y"
      "r (field_of_key t) = Some y" by auto
  with x show ?thesis by (auto simp: get_field_def)
qed


lemma header_field:
  assumes r: "transform_item F q item = Inr r" and h: "h \<in> set header_fields"
  shows "get_field r h =
           (case map_of (attach_header q item []) h of
              None \<Rightarrow> PNone
            | Some v \<Rightarrow> if eq_zero v then PNone else v)"
proof -
  from r obtain d0 where d0: "line_items F [] (financials item) = Inr d0"
    and rr: "fill_fields F (use_alias (replace_zero (attach_header q item d0))) = Inr r"
    by (auto simp: transform_item_Inr IntrinioBalanceSheetData_def)
  have same: "map_of (attach_header q item d0) h = map_of (attach_header q item []) h"
    using h by (auto simp: map_of_attach_header header_fields_def)
  have "r h = map_option (\<lambda>v. if eq_zero v then PNone else v) (map_of (attach_header q item []) h)"
    by (simp only: fill_fields_header[OF rr h] header_field_lookup[OF d0 h] same)
  then show ?thesis
    by (cases "map_of (attach_header q item []) h") (simp_all add: get_field_def)
qed

lemma declared_field_rejected:
  assumes d0: "line_items F [] (financials item) = Inr d0"
    and dec: "field_of_key t \<in> set declared_fields"
    and uniq: "\<forall>t'\<in>fst ` set (financials item). field_of_key t' = field_of_key t \<longrightarrow> t' = t"
    and x: "map_of d0 t = Some x"
    and bad: "isl (validate_optional_int F (if eq_zero x then PNone else x))"
  shows "transform_item F q item = Inl ValidationError"
proof -
  let ?kwargs = "use_alias (replace_zero (attach_header q item d0))"
  have "map_of ?kwargs (field_of_key t) = Some (if eq_zero x then PNone else x)"
    by (simp add: declared_field_lookup[OF d0 dec uniq] x)
  with dec bad have "\<exists>f\<in>set declared_fields.
      case map_of ?kwargs f of None \<Rightarrow> False | Some v \<Rightarrow> isl (validate_optional_int F v)"
    by (intro bexI[of _ "field_of_key t"]) simp_all
  then have "fill_fields F ?kwargs = Inl ValidationError"
    unfolding fill_fields_def by (simp only: if_True)
  then show ?thesis
    by (simp add: transform_item_def sub_dict_of_def d0 IntrinioBalanceSheetData_def)
qed

lemma transform_item_rejects:
  assumes "\<exists>tv\<in>set (financials item). isl (coerce_value F (snd tv))"
  shows "isl (transform_item F q item)"
proof -
  from assms have "isl (line_items F [] (financials item))" by (simp add: line_items_isl)
  then show ?thesis
    by (cases "line_items F [] (financials item)")
      (simp_all add: transform_item_def sub_dict_of_def)
qed

lemma returns_projr: "\<not> isl s \<Longrightarrow> s = Inr (projr s)"
  by (cases s) simp_all

lemmas eval_float = float_of_int_def pack_double_def bit_length.simps round_half_even_def
  float_is_zero_def float_one_def

lemmas eval_int = float_as_int_def float_is_zero_def Let_def

lemma field_of_key_examples:
  "field_of_key ''goodwill'' = ''goodwill''"
  "field_of_key ''totalassets'' = ''total_assets''"
  "field_of_key ''unknowntag'' = ''unknowntag''"
  "field_of_key ''total_assets'' = ''total_assets''"
  by (simp_all add: field_of_key_def alias_dict_def)

lemma declared_examples:
  "''goodwill'' \<in> set declared_fields"
  "''total_assets'' \<in> set declared_fields"
  "''restricted_cash'' \<in> set declared_fields"
  by (simp_all add: declared_fields_def)

lemma unknowntag_unknown: "''unknowntag'' \<notin> set standardized_fields"
  by (simp add: standardized_fields_def header_fields_def declared_fields_def)

lemma sample_line_items:
  "line_items reject_str [] (financials sample_statement) =
     Inr [(''goodwill'', PFloat 0x4014000000000000), (''unknowntag'', PFloat 0x401C000000000000),
          (''total_assets'', PNone)]"
  by (simp add: sample_statement_def coerce_value_def eval_float)

lemma sample_ok:
  "transform_item reject_str q sample_statement =
     Inr (projr (transform_item reject_str q sample_statement))"
proof -
  have "\<not> isl (transform_item reject_str q sample_statement)"
    by (rule transform_item_returns[OF sample_line_items]) (simp add: eval_int)
  then show ?thesis by (rule returns_projr)
qed

lemma alias_line_items:
  "line_items reject_str [] (financials alias_statement) =
     Inr [(''totalassets'', PFloat 0x4059000000000000), (''goodwill'', PNone)]"
  by (simp add: alias_statement_def coerce_value_def eval_float)

lemma alias_ok:
  "transform_item reject_str q alias_statement =
     Inr (projr (transform_item reject_str q alias_statement))"
proof -
  have "\<not> isl (transform_item reject_str q alias_statement)"
    by (rule transform_item_returns[OF alias_line_items]) (simp add: eval_int)
  then show ?thesis by (rule returns_projr)
qed

lemma duplicate_line_items:
  "line_items reject_str [] (financials duplicate_statement) =
     Inr [(''goodwill'', PFloat 0x4014000000000000)]"
  by (simp add: duplicate_statement_def coerce_value_def eval_float)

lemma duplicate_ok:
  "transform_item reject_str q duplicate_statement =
     Inr (projr (transform_item reject_str q duplicate_statement))"
proof -
  have "\<not> isl (transform_item reject_str q duplicate_statement)"
    by (rule transform_item_returns[OF duplicate_line_items]) (simp add: eval_int)
  then show ?thesis by (rule returns_projr)
qed

lemma fractional_line_items:
  "line_items reject_str [] (financials fractional_statement) =
     Inr [(''goodwill'', PFloat 0x4016000000000000)]"
  by (simp add: fractional_statement_def coerce_value_def float_is_zero_def)

lemma float_as_int_examples:
  "float_as_int 0x4014000000000000 = Inr 5"
  "float_as_int 0x4059000000000000 = Inr 100"
  "float_as_int 0x4016000000000000 = Inl ValidationError"
  by (simp_all add: eval_int)

subsection \<open>C1: the field a line item fills\<close>

text \<open>
  C1, as amended. Take a line item whose tag the alias table resolves to a declared
  line-item field, which is the last item of the statement with that tag, and whose tag is
  the only one in the statement that resolves to that field. When its raw value is falsy
  (\<^verbatim>\<open>None\<close>, \<open>0\<close>, \<open>0.0\<close>, \<^verbatim>\<open>False\<close>, an empty str, list or dict), the field is
  unset in the record of the statement. When it is any other number, the field of the
  record holds the int that the value cast to a float is equal to; and when that float
  is equal to no int, as \<open>5.5\<close> is not, the statement has no record: its transformation
  fails.
\<close>

theorem line_item_field:
  assumes "financials item = before @ (t, v) # after" and "t \<notin> fst ` set after"
    and "field_of_key t \<in> set declared_fields"
    and "\<forall>t'\<in>fst ` set (financials item). field_of_key t' = field_of_key t \<longrightarrow> t' = t"
  shows "(\<not> truthy v \<longrightarrow>
            (\<forall>r. transform_item F q item = Inr r \<longrightarrow> get_field r (field_of_key t) = PNone)) \<and>
         (truthy v \<and> is_number v \<longrightarrow>
            (\<forall>r. transform_item F q item = Inr r \<longrightarrow>
               (\<exists>x n. py_float F v = Inr x \<and> float_as_int x = Inr n \<and>
                      get_field r (field_of_key t) = PInt n)) \<and>
            (\<forall>x. py_float F v = Inr x \<longrightarrow> isl (float_as_int x) \<longrightarrow>
               isl (transform_item F q item)))"
proof (intro conjI impI allI)
  fix r assume f: "\<not> truthy v" and r: "transform_item F q item = Inr r"
  from declared_field[OF r assms] obtain x y where x: "coerce_value F v = Inr x"
    and y: "validate_optional_int F (if eq_zero x then PNone else x) = Inr y"
    and g: "get_field r (field_of_key t) = y" by blast
  from f x have "x = PNone" by (simp add: coerce_value_falsy)
  with y g show "get_field r (field_of_key t) = PNone" by simp
next
  fix r assume n: "truthy v \<and> is_number v" and r: "transform_item F q item = Inr r"
  from declared_field[OF r assms] obtain x y where x: "coerce_value F v = Inr x"
    and y: "validate_optional_int F (if eq_zero x then PNone else x) = Inr y"
    and g: "get_field r (field_of_key t) = y" by blast
  from n x obtain f where f: "py_float F v = Inr f" "x = PFloat f" "\<not> float_is_zero f"
    using coerce_value_number by blast
  from y f(2,3) obtain m where "float_as_int f = Inr m" "y = PInt m"
    by (auto split: sum.splits)
  with f(1) g show "\<exists>x n. py_float F v = Inr x \<and> float_as_int x = Inr n \<and>
                      get_field r (field_of_key t) = PInt n" by simp
next
  fix x assume n: "truthy v \<and> is_number v" and x: "py_float F v = Inr x"
    and bad: "isl (float_as_int x)"
  show "isl (transform_item F q item)"
  proof (rule ccontr)
    assume "\<not> isl (transform_item F q item)"
    then obtain r where r: "transform_item F q item = Inr r"
      by (cases "transform_item F q item") auto
    from declared_field[OF r assms] obtain x' y where x': "coerce_value F v = Inr x'"
      and y: "validate_optional_int F (if eq_zero x' then PNone else x') = Inr y" by blast
    from n x' obtain f where f: "py_float F v = Inr f" "x' = PFloat f" "\<not> float_is_zero f"
      using coerce_value_number by blast
    from f(1) x have "f = x" by simp
    with y f(2,3) have "\<not> isl (float_as_int x)" by (auto split: sum.splits)
    with bad show False by simp
  qed
qed

theorem line_item_field_witness:
  "financials alias_statement = [] @ (''totalassets'', PInt 100) # [(''goodwill'', PInt 0)] \<and>
   field_of_key ''totalassets'' = ''total_assets'' \<and> ''total_assets'' \<in> set declared_fields \<and>
   truthy (PInt 100) \<and> is_number (PInt 100) \<and>
   transform_item reject_str annual_query alias_statement
     = Inr (projr (transform_item reject_str annual_query alias_statement)) \<and>
   get_field (projr (transform_item reject_str annual_query alias_statement)) ''total_assets''
     = PInt 100 \<and>
   financials alias_statement = [(''totalassets'', PInt 100)] @ (''goodwill'', PInt 0) # [] \<and>
   \<not> truthy (PInt 0) \<and>
   get_field (projr (transform_item reject_str annual_query alias_statement)) ''goodwill''
     = PNone \<and>
   financials fractional_statement = [] @ (''goodwill'', PFloat 0x4016000000000000) # [] \<and>
   truthy (PFloat 0x4016000000000000) \<and> is_number (PFloat 0x4016000000000000) \<and>
   py_float reject_str (PFloat 0x4016000000000000) = Inr 0x4016000000000000 \<and>
   isl (float_as_int 0x4016000000000000) \<and>
   isl (transform_item reject_str annual_query fractional_statement)"
proof -
  let ?r = "projr (transform_item reject_str annual_query alias_statement)"
  note k = field_of_key_examples
  have fin1: "financials alias_statement
      = [] @ (''totalassets'', PInt 100) # [(''goodwill'', PInt 0)]"
    and fin2: "financials alias_statement
      = [(''totalassets'', PInt 100)] @ (''goodwill'', PInt 0) # []"
    by (simp_all add: alias_statement_def)
  have fin3: "financials fractional_statement
      = [] @ (''goodwill'', PFloat 0x4016000000000000) # []"
    by (simp add: fractional_statement_def)
  have last1: "''totalassets'' \<notin> fst ` set [(''goodwill'', PInt 0)]"
    and last2: "''goodwill'' \<notin> fst ` set ([] :: (string \<times> pyval) list)" by simp_all
  have dec1: "field_of_key ''totalassets'' \<in> set declared_fields"
    and dec2: "field_of_key ''goodwill'' \<in> set declared_fields"
    by (simp_all only: k declared_examples)
  have u1: "\<forall>t'\<in>fst ` set (financials alias_statement).
      field_of_key t' = field_of_key ''totalassets'' \<longrightarrow> t' = ''totalassets''"
    and u2: "\<forall>t'\<in>fst ` set (financials alias_statement).
      field_of_key t' = field_of_key ''goodwill'' \<longrightarrow> t' = ''goodwill''"
    by (simp_all add: alias_statement_def k)
  have u3: "\<forall>t'\<in>fst ` set (financials fractional_statement).
      field_of_key t' = field_of_key ''goodwill'' \<longrightarrow> t' = ''goodwill''"
    by (simp add: fractional_statement_def)
  have t100: "truthy (PInt 100) \<and> is_number (PInt 100)" and f0: "\<not> truthy (PInt 0)"
    by simp_all
  have t55: "truthy (PFloat 0x4016000000000000) \<and> is_number (PFloat 0x4016000000000000)"
    by (simp add: float_is_zero_def)
  have hundred: "py_float reject_str (PInt 100) = Inr 0x4059000000000000"
    by (simp add: eval_float)
  have p55: "py_float reject_str (PFloat 0x4016000000000000) = Inr 0x4016000000000000"
    by simp
  have bad: "isl (float_as_int 0x4016000000000000)"
    by (simp add: float_as_int_examples)
  note A = line_item_field[OF fin1 last1 dec1 u1, of reject_str annual_query]
  note B = line_item_field[OF fin2 last2 dec2 u2, of reject_str annual_query]
  note C = line_item_field[OF fin3 last2 dec2 u3, of reject_str annual_query]
  from A t100 alias_ok[of annual_query] obtain x n
    where x: "py_float reject_str (PInt 100) = Inr x" and n: "float_as_int x = Inr n"
      and g: "get_field ?r (field_of_key ''totalassets'') = PInt n" by blast
  from x have "x = 0x4059000000000000" unfolding hundred by simp
  with n have "n = 100" by (simp add: float_as_int_examples)
  with g have g1: "get_field ?r ''total_assets'' = PInt 100" by (simp only: k)
  from B f0 alias_ok[of annual_query] have "get_field ?r (field_of_key ''goodwill'') = PNone"
    by blast
  then have g2: "get_field ?r ''goodwill'' = PNone" by (simp only: k)
  from C t55 p55 bad have g3: "isl (transform_item reject_str annual_query fractional_statement)"
    by blast
  from fin1 k(2) declared_examples(2) t100 alias_ok[of annual_query] g1 fin2 f0 g2 fin3 t55 p55
    bad g3
  show ?thesis by blast
qed

theorem line_item_field_counterexample:
  "(''goodwill'', PInt 0) \<in> set (financials duplicate_statement) \<and> \<not> truthy (PInt 0) \<and>
   \<not> isl (transform_item reject_str annual_query duplicate_statement) \<and>
   get_field (projr (transform_item reject_str annual_query duplicate_statement)) ''goodwill''
     = PInt 5 \<and>
   (''goodwill'', PFloat 0x4016000000000000) \<in> set (financials fractional_statement) \<and>
   truthy (PFloat 0x4016000000000000) \<and> is_number (PFloat 0x4016000000000000) \<and>
   transform_item reject_str annual_query fractional_statement = Inl ValidationError"
proof -
  let ?r = "projr (transform_item reject_str annual_query duplicate_statement)"
  note k = field_of_key_examples
  have dec: "field_of_key ''goodwill'' \<in> set declared_fields"
    by (simp only: k declared_examples)
  have fin: "financials duplicate_statement
      = [(''goodwill'', PInt 0)] @ (''goodwill'', PInt 5) # []"
    by (simp add: duplicate_statement_def)
  have last: "''goodwill'' \<notin> fst ` set ([] :: (string \<times> pyval) list)" by simp
  have u: "\<forall>t'\<in>fst ` set (financials duplicate_statement).
      field_of_key t' = field_of_key ''goodwill'' \<longrightarrow> t' = ''goodwill''"
    by (simp add: duplicate_statement_def)
  have u': "\<forall>t'\<in>fst ` set (financials fractional_statement).
      field_of_key t' = field_of_key ''goodwill'' \<longrightarrow> t' = ''goodwill''"
    by (simp add: fractional_statement_def)
  have five: "coerce_value reject_str (PInt 5) = Inr (PFloat 0x4014000000000000)"
    by (simp add: coerce_value_def eval_float)
  from declared_field[OF duplicate_ok fin last dec u] obtain x y
    where x: "coerce_value reject_str (PInt 5) = Inr x"
      and y: "validate_optional_int reject_str (if eq_zero x then PNone else x) = Inr y"
      and gy: "get_field ?r (field_of_key ''goodwill'') = y" by blast
  from x have "x = PFloat 0x4014000000000000" unfolding five by simp
  with y have "y = PInt 5" by (simp add: float_is_zero_def float_as_int_examples)
  with gy have g: "get_field ?r ''goodwill'' = PInt 5" by (simp only: k)
  have ok: "\<not> isl (transform_item reject_str annual_query duplicate_statement)"
    using duplicate_ok[of annual_query] by (metis sum.disc(2))
  have stored: "map_of [(''goodwill'', PFloat 0x4016000000000000)] ''goodwill''
      = Some (PFloat 0x4016000000000000)" by simp
  have refused: "isl (validate_optional_int reject_str
      (if eq_zero (PFloat 0x4016000000000000) then PNone else PFloat 0x4016000000000000))"
    by (simp add: float_is_zero_def float_as_int_examples)
  have bad: "transform_item reject_str annual_query fractional_statement = Inl ValidationError"
    by (rule declared_field_rejected[OF fractional_line_items dec u' stored refused])
  have m1: "(''goodwill'', PInt 0) \<in> set (financials duplicate_statement)"
    by (simp add: duplicate_statement_def)
  have m2: "(''goodwill'', PFloat 0x4016000000000000) \<in> set (financials fractional_statement)"
    by (simp add: fractional_statement_def)
  have t: "\<not> truthy (PInt 0)"
    "truthy (PFloat 0x4016000000000000) \<and> is_number (PFloat 0x4016000000000000)"
    by (simp_all add: float_is_zero_def)
  from m1 t ok g m2 bad show ?thesis by blast
qed

subsection \<open>C5: the period of the query\<close>

text \<open>
  C5. Query construction turns the period \<open>annual\<close> into the vendor token \<open>FY\<close> and
  \<open>quarter\<close> into \<open>QTR\<close>, and fails with a validation error for every other period.
\<close>

theorem transform_query_period:
  "(p_period ps = ''annual'' \<longrightarrow> (\<exists>q. transform_query ps = Inr q \<and> period q = ''FY'')) \<and>
   (p_period ps = ''quarter'' \<longrightarrow> (\<exists>q. transform_query ps = Inr q \<and> period q = ''QTR'')) \<and>
   (p_period ps \<noteq> ''annual'' \<and> p_period ps \<noteq> ''quarter'' \<longrightarrow>
      transform_query ps = Inl ValidationError)"
  by (simp add: transform_query_def validate_period_def)

theorem transform_query_period_witness:
  "p_period annual_params = ''annual'' \<and>
   \<not> isl (transform_query annual_params) \<and>
   period (projr (transform_query annual_params)) = ''FY'' \<and>
   p_period quarter_params = ''quarter'' \<and>
   \<not> isl (transform_query quarter_params) \<and>
   period (projr (transform_query quarter_params)) = ''QTR'' \<and>
   p_period monthly_params = ''monthly'' \<and>
   transform_query monthly_params = Inl ValidationError"
proof -
  have a: "p_period annual_params = ''annual''" by (simp add: annual_params_def)
  have b: "p_period quarter_params = ''quarter''" by (simp add: quarter_params_def)
  have c: "p_period monthly_params = ''monthly''" by (simp add: monthly_params_def)
  from transform_query_period[of annual_params] a
  obtain q1 where "transform_query annual_params = Inr q1" "period q1 = ''FY''" by blast
  moreover from transform_query_period[of quarter_params] b
  obtain q2 where "transform_query quarter_params = Inr q2" "period q2 = ''QTR''" by blast
  moreover from transform_query_period[of monthly_params] c
  have "transform_query monthly_params = Inl ValidationError" by simp
  ultimately show ?thesis using a b c by simp
qed

subsection \<open>C6: the symbol of the query\<close>

lemma handle_symbol_no_hyphen: "CHR ''-'' \<notin> set v \<Longrightarrow> handle_symbol v = v"
  unfolding handle_symbol_def by (induction v) auto

text \<open>
  C6. The symbol validator replaces every hyphen by a period, position by position, and
  changes nothing else: the result has the length of the input and no hyphen, a symbol
  without a hyphen is returned as it is, and the constructed query carries the result.
\<close>

theorem handle_symbol_hyphens:
  "length (handle_symbol v) = length v \<and>
   (\<forall>i<length v. handle_symbol v ! i = (if v ! i = CHR ''-'' then CHR ''.'' else v ! i)) \<and>
   CHR ''-'' \<notin> set (handle_symbol v) \<and>
   (CHR ''-'' \<notin> set v \<longrightarrow> handle_symbol v = v) \<and>
   (transform_query ps = Inr q \<longrightarrow> symbol q = handle_symbol (p_symbol ps))"
proof (intro conjI)
  show "length (handle_symbol v) = length v" by (simp add: handle_symbol_def)
  show "\<forall>i<length v. handle_symbol v ! i = (if v ! i = CHR ''-'' then CHR ''.'' else v ! i)"
    by (simp add: handle_symbol_def)
  show "CHR ''-'' \<notin> set (handle_symbol v)" by (auto simp: handle_symbol_def)
  show "CHR ''-'' \<notin> set v \<longrightarrow> handle_symbol v = v" by (simp add: handle_symbol_no_hyphen)
  show "transform_query ps = Inr q \<longrightarrow> symbol q = handle_symbol (p_symbol ps)"
    by (auto simp: transform_query_def split: if_splits)
qed

theorem handle_symbol_hyphens_witness:
  "handle_symbol ''BRK-B'' ! 3 = CHR ''.'' \<and> handle_symbol ''BRK-B'' ! 4 = CHR ''B'' \<and>
   length (handle_symbol ''BRK-B'') = 5 \<and>
   CHR ''-'' \<notin> set ''AAPL'' \<and> handle_symbol ''AAPL'' = ''AAPL'' \<and>
   transform_query annual_params = Inr (projr (transform_query annual_params)) \<and>
   symbol (projr (transform_query annual_params)) = handle_symbol ''BRK-B''"
proof -
  have ok: "transform_query annual_params = Inr (projr (transform_query annual_params))"
    by (simp add: transform_query_def annual_params_def)
  have nh: "CHR ''-'' \<notin> set ''AAPL''" by simp
  have sy: "p_symbol annual_params = ''BRK-B''" by (simp add: annual_params_def)
  from handle_symbol_hyphens[of "''BRK-B''" annual_params "projr (transform_query annual_params)"]
    handle_symbol_hyphens[of "''AAPL''" annual_params "projr (transform_query annual_params)"]
    ok nh sy
  show ?thesis by simp
qed

subsection \<open>C2: no field of a record is zero\<close>

lemma transform_data_Inr:
  "transform_data F q data = Inr recs \<longleftrightarrow>
     list_all2 (\<lambda>item r. transform_item F q item = Inr r) data recs"
proof (induction data arbitrary: recs)
  case Nil
  then show ?case by auto
next
  case (Cons item data)
  show ?case
    by (auto simp: list_all2_Cons1 Cons.IH[symmetric] split: sum.splits)
qed



lemma annual_params_query: "transform_query annual_params = Inr annual_query"
  by (simp add: transform_query_def annual_params_def annual_query_def handle_symbol_def
      validate_period_def)

lemma quarter_params_query: "transform_query quarter_params = Inr quarter_query"
  by (simp add: transform_query_def quarter_params_def quarter_query_def handle_symbol_def
      validate_period_def)





subsection \<open>C3: the fiscal period of a quarterly query\<close>

text \<open>
  C3. For a statement whose fiscal period is \<open>FY\<close>: under a query built from the
  period \<open>quarter\<close> the record's fiscal period is \<open>Q4\<close>, and under a query built
  from the period \<open>annual\<close> it stays \<open>FY\<close>.
\<close>

theorem fiscal_period_q4:
  assumes "transform_query ps = Inr q" and "transform_item F q item = Inr r"
    and "fiscal_period item = PStr ''FY''"
  shows "(p_period ps = ''quarter'' \<longrightarrow> get_field r ''fiscal_period'' = PStr ''Q4'') \<and>
         (p_period ps = ''annual'' \<longrightarrow> get_field r ''fiscal_period'' = PStr ''FY'')"
proof -
  from assms(1) have p: "period q = validate_period (p_period ps)"
    by (auto simp: transform_query_def split: if_splits)
  have h: "''fiscal_period'' \<in> set header_fields" by (simp add: header_fields_def)
  show ?thesis
    unfolding header_field[OF assms(2) h]
    by (simp add: map_of_attach_header p assms(3) validate_period_def)
qed

theorem fiscal_period_q4_witness:
  "transform_query quarter_params = Inr quarter_query \<and>
   transform_item reject_str quarter_query sample_statement
     = Inr (projr (transform_item reject_str quarter_query sample_statement)) \<and>
   fiscal_period sample_statement = PStr ''FY'' \<and>
   p_period quarter_params = ''quarter'' \<and>
   get_field (projr (transform_item reject_str quarter_query sample_statement)) ''fiscal_period''
     = PStr ''Q4'' \<and>
   transform_query annual_params = Inr annual_query \<and>
   p_period annual_params = ''annual'' \<and>
   get_field (projr (transform_item reject_str annual_query sample_statement)) ''fiscal_period''
     = PStr ''FY''"
proof -
  have fy: "fiscal_period sample_statement = PStr ''FY''" by (simp add: sample_statement_def)
  have pq: "p_period quarter_params = ''quarter''" by (simp add: quarter_params_def)
  have pa: "p_period annual_params = ''annual''" by (simp add: annual_params_def)
  from fiscal_period_q4[OF quarter_params_query sample_ok fy] pq
  have "get_field (projr (transform_item reject_str quarter_query sample_statement))
          ''fiscal_period'' = PStr ''Q4''" by simp
  moreover from fiscal_period_q4[OF annual_params_query sample_ok fy] pa
  have "get_field (projr (transform_item reject_str annual_query sample_statement))
          ''fiscal_period'' = PStr ''FY''" by simp
  ultimately show ?thesis
    using quarter_params_query annual_params_query sample_ok fy pq pa by simp
qed

subsection \<open>C9: a tag that names no field\<close>

lemma record_skip:
  assumes same: "filter (\<lambda>kv. fst kv \<noteq> t) D = filter (\<lambda>kv. fst kv \<noteq> t) D'"
    and nf: "field_of_key t \<notin> set standardized_fields"
  shows "IntrinioBalanceSheetData F D = IntrinioBalanceSheetData F D'"
  unfolding IntrinioBalanceSheetData_def
proof (rule fill_fields_cong, rule ballI)
  fix f assume f: "f \<in> set standardized_fields"
  with nf have ne: "field_of_key t \<noteq> f" by auto
  let ?h = "\<lambda>v. if eq_zero v then PNone else v"
  have "map_of (use_alias (replace_zero D)) f
          = map_of (rev (map (\<lambda>(k, v). (field_of_key k, ?h v)) (filter (\<lambda>kv. fst kv \<noteq> t) D))) f"
    unfolding values_lookup using ne by (rule map_of_renamed_filter)
  also have "\<dots> = map_of (rev (map (\<lambda>(k, v). (field_of_key k, ?h v))
                               (filter (\<lambda>kv. fst kv \<noteq> t) D'))) f"
    by (simp only: same)
  also have "\<dots> = map_of (use_alias (replace_zero D')) f"
    unfolding values_lookup using ne by (rule map_of_renamed_filter[symmetric])
  finally show "map_of (use_alias (replace_zero D)) f = map_of (use_alias (replace_zero D')) f" .
qed

lemma transform_item_skip:
  assumes nf: "field_of_key t \<notin> set standardized_fields" and c: "coerce_value F v = Inr x"
  shows "transform_item F q (item\<lparr>financials := before @ (t, v) # after\<rparr>)
           = transform_item F q (item\<lparr>financials := before @ after\<rparr>)"
proof (cases "line_items F [] before")
  case (Inl e)
  then show ?thesis
    by (simp add: transform_item_def sub_dict_of_def line_items_append)
next
  case (Inr d0)
  have nh: "t \<notin> set header_fields"
  proof
    assume h: "t \<in> set header_fields"
    then have "field_of_key t = t" by (rule header_no_tag)
    with nf h show False by (simp add: header_standardized)
  qed
  have "filter (\<lambda>kv. fst kv \<noteq> t) (dict_set d0 t x) = filter (\<lambda>kv. fst kv \<noteq> t) d0"
    by (rule filter_dict_set_same)
  then have rel: "rel_sum (=)
      (\<lambda>r r'. filter (\<lambda>kv. fst kv \<noteq> t) r = filter (\<lambda>kv. fst kv \<noteq> t) r')
      (line_items F (dict_set d0 t x) after) (line_items F d0 after)"
    by (rule line_items_rel)
  have with_t: "line_items F [] (before @ (t, v) # after) = line_items F (dict_set d0 t x) after"
    by (simp add: line_items_append Inr c)
  have without_t: "line_items F [] (before @ after) = line_items F d0 after"
    by (simp add: line_items_append Inr)
  from rel consider
      (fails) e where "line_items F (dict_set d0 t x) after = Inl e"
        "line_items F d0 after = Inl e"
    | (returns) r r' where "line_items F (dict_set d0 t x) after = Inr r"
        "line_items F d0 after = Inr r'"
        "filter (\<lambda>kv. fst kv \<noteq> t) r = filter (\<lambda>kv. fst kv \<noteq> t) r'"
    by (auto simp: rel_sum.simps)
  then show ?thesis
  proof cases
    case fails
    then show ?thesis
      by (simp add: transform_item_def sub_dict_of_def with_t without_t)
  next
    case returns
    have "filter (\<lambda>kv. fst kv \<noteq> t) (attach_header q item r)
            = filter (\<lambda>kv. fst kv \<noteq> t) (attach_header q item r')"
      by (simp only: filter_attach_header[OF nh] returns(3))
    then have "IntrinioBalanceSheetData F (attach_header q item r)
                 = IntrinioBalanceSheetData F (attach_header q item r')"
      using nf by (rule record_skip)
    with returns show ?thesis
      by (simp add: transform_item_def sub_dict_of_def with_t without_t attach_header_financials)
  qed
qed

lemma rejected_line_items:
  "coerce_value reject_str (PStr ''n/a'') = Inl ValueError"
  by (simp add: coerce_value_def reject_str_def reject_float_def)

text \<open>
  C9, as amended. Take a line item whose tag the alias table resolves to no standardized
  field. When the coercion accepts its value, the item changes nothing: the statement
  transforms to what it transforms to without that item, be it a record or an error, and
  a record it yields has no value under the name the tag resolves to. When
  \<^verbatim>\<open>float\<close> rejects its value, the transformation of the statement fails, whatever
  the tag is.
\<close>

theorem unknown_tag_dropped:
  assumes "field_of_key t \<notin> set standardized_fields"
  shows "(\<forall>x. coerce_value F v = Inr x \<longrightarrow>
            transform_item F q (item\<lparr>financials := before @ (t, v) # after\<rparr>)
              = transform_item F q (item\<lparr>financials := before @ after\<rparr>) \<and>
            (\<forall>r. transform_item F q (item\<lparr>financials := before @ (t, v) # after\<rparr>) = Inr r \<longrightarrow>
                 r (field_of_key t) = None \<and> get_field r (field_of_key t) = PNone)) \<and>
         (isl (coerce_value F v) \<longrightarrow>
            isl (transform_item F q (item\<lparr>financials := before @ (t, v) # after\<rparr>)))"
proof (intro conjI allI impI)
  fix x assume "coerce_value F v = Inr x"
  with assms show "transform_item F q (item\<lparr>financials := before @ (t, v) # after\<rparr>)
           = transform_item F q (item\<lparr>financials := before @ after\<rparr>)"
    by (rule transform_item_skip)
next
  fix x r assume "transform_item F q (item\<lparr>financials := before @ (t, v) # after\<rparr>) = Inr r"
  then obtain d where "fill_fields F d = Inr r"
    by (auto simp: transform_item_Inr IntrinioBalanceSheetData_def)
  from fill_fields_other[OF this assms] show "r (field_of_key t) = None" .
  then show "get_field r (field_of_key t) = PNone" by (simp add: get_field_def)
next
  assume "isl (coerce_value F v)"
  then show "isl (transform_item F q (item\<lparr>financials := before @ (t, v) # after\<rparr>))"
    by (intro transform_item_rejects) simp
qed

theorem unknown_tag_dropped_witness:
  "field_of_key ''unknowntag'' = ''unknowntag'' \<and> ''unknowntag'' \<notin> set standardized_fields \<and>
   coerce_value reject_str (PInt 7) = Inr (PFloat 0x401C000000000000) \<and>
   transform_item reject_str annual_query
       (sample_statement\<lparr>financials := [(''goodwill'', PInt 5)] @ (''unknowntag'', PInt 7)
                                            # [(''total_assets'', PInt 0)]\<rparr>)
     = transform_item reject_str annual_query
       (sample_statement\<lparr>financials := [(''goodwill'', PInt 5)] @ [(''total_assets'', PInt 0)]\<rparr>) \<and>
   \<not> isl (transform_item reject_str annual_query sample_statement) \<and>
   projr (transform_item reject_str annual_query sample_statement) ''unknowntag'' = None \<and>
   isl (coerce_value reject_str (PStr ''n/a'')) \<and>
   isl (transform_item reject_str annual_query
          (sample_statement\<lparr>financials := [(''goodwill'', PInt 5)] @ (''unknowntag'', PStr ''n/a'')
                                            # [(''total_assets'', PInt 0)]\<rparr>))"
proof -
  note k = field_of_key_examples(3)
  have nf: "field_of_key ''unknowntag'' \<notin> set standardized_fields"
    by (simp only: k unknowntag_unknown not_False_eq_True)
  have seven: "coerce_value reject_str (PInt 7) = Inr (PFloat 0x401C000000000000)"
    by (simp add: coerce_value_def eval_float)
  have na: "isl (coerce_value reject_str (PStr ''n/a''))"
    by (simp add: rejected_line_items)
  have same: "sample_statement\<lparr>financials := [(''goodwill'', PInt 5)] @ (''unknowntag'', PInt 7)
                                            # [(''total_assets'', PInt 0)]\<rparr> = sample_statement"
    by (simp add: sample_statement_def)
  note T = unknown_tag_dropped[OF nf, where F = reject_str and v = "PInt 7"
      and q = annual_query and item = sample_statement and before = "[(''goodwill'', PInt 5)]"
      and after = "[(''total_assets'', PInt 0)]"]
  note U = unknown_tag_dropped[OF nf, where F = reject_str and v = "PStr ''n/a''"
      and q = annual_query and item = sample_statement and before = "[(''goodwill'', PInt 5)]"
      and after = "[(''total_assets'', PInt 0)]"]
  have ok: "\<not> isl (transform_item reject_str annual_query sample_statement)"
    using sample_ok[of annual_query] by (metis sum.disc(2))
  from T seven have 1: "transform_item reject_str annual_query
       (sample_statement\<lparr>financials := [(''goodwill'', PInt 5)] @ (''unknowntag'', PInt 7)
                                            # [(''total_assets'', PInt 0)]\<rparr>)
     = transform_item reject_str annual_query
       (sample_statement\<lparr>financials := [(''goodwill'', PInt 5)] @ [(''total_assets'', PInt 0)]\<rparr>)"
    by blast
  from T seven have "\<forall>r. transform_item reject_str annual_query
       (sample_statement\<lparr>financials := [(''goodwill'', PInt 5)] @ (''unknowntag'', PInt 7)
                                            # [(''total_assets'', PInt 0)]\<rparr>) = Inr r \<longrightarrow>
       r (field_of_key ''unknowntag'') = None" by blast
  then have "\<forall>r. transform_item reject_str annual_query sample_statement = Inr r \<longrightarrow>
       r ''unknowntag'' = None" unfolding same k .
  with sample_ok[of annual_query]
  have 2: "projr (transform_item reject_str annual_query sample_statement) ''unknowntag'' = None"
    by blast
  from U na have 3: "isl (transform_item reject_str annual_query
          (sample_statement\<lparr>financials := [(''goodwill'', PInt 5)] @ (''unknowntag'', PStr ''n/a'')
                                            # [(''total_assets'', PInt 0)]\<rparr>))" by blast
  from k unknowntag_unknown seven 1 ok 2 na 3 show ?thesis by blast
qed

theorem unknown_tag_dropped_counterexample:
  "''unknowntag'' \<notin> set standardized_fields \<and>
   (''unknowntag'', PStr ''n/a'') \<in> set (financials rejected_statement) \<and>
   transform_item reject_str annual_query rejected_statement = Inl ValueError"
proof -
  have "transform_item reject_str annual_query rejected_statement = Inl ValueError"
    by (simp add: transform_item_def sub_dict_of_def rejected_statement_def rejected_line_items)
  moreover have "(''unknowntag'', PStr ''n/a'') \<in> set (financials rejected_statement)"
    by (simp add: rejected_statement_def)
  ultimately show ?thesis using unknowntag_unknown by blast
qed

subsection \<open>Extraction in closed form\<close>

lemma amake_requests_Inr:
  "amake_requests req urls cb = Inr rs \<longleftrightarrow>
     list_all2 (\<lambda>u r. \<exists>p. req u = Inr p \<and> r = cb p) urls rs"
proof (induction urls arbitrary: rs)
  case Nil
  then show ?case by auto
next
  case (Cons u urls)
  show ?case
    by (auto simp: list_all2_Cons1 Cons.IH[symmetric] split: sum.splits)
qed


text \<open>The fields of an extraction, in closed form.\<close>

lemma aextract_data_eq:
  "aextract_data V q c =
     fetch_statements V
       (case fiscal_year q of
          None \<Rightarrow> q
        | Some y \<Rightarrow> if y < 2008 then q\<lparr>fiscal_year := Some 2008\<rparr> else q)
       (api_key_of c)
       (case fiscal_year q of
          None \<Rightarrow> []
        | Some y \<Rightarrow> if y < 2008 then [warning_2008] else [])
       (listing_url q c)"
  by (simp add: aextract_data_def listing_url_def Let_def split: option.splits)

lemma fetch_statements_simps:
  "query_after (fetch_statements V q k ws url) = q"
  "warnings (fetch_statements V q k ws url) = ws"
  "hd (requests (fetch_statements V q k ws url)) = url"
  "requests (fetch_statements V q k ws url) \<noteq> []"
  by (simp_all add: fetch_statements_def Let_def split: sum.splits)


lemma fetch_statements_answered:
  "get_data_one V url = Inr response \<Longrightarrow>
     tl (requests (fetch_statements V q k ws url)) =
       map (period_url q k)
         (take (limit q) (map fiscal_period_ref (case response of None \<Rightarrow> [] | Some es \<Rightarrow> es)))"
  "get_data_one V url = Inr response \<Longrightarrow>
     result (fetch_statements V q k ws url) =
       amake_requests (request V) (tl (requests (fetch_statements V q k ws url))) callback"
  by (simp_all add: fetch_statements_def Let_def)

lemma query_after_aextract:
  "query_after (aextract_data V q c) =
     (case fiscal_year q of
        None \<Rightarrow> q
      | Some y \<Rightarrow> if y < 2008 then q\<lparr>fiscal_year := Some 2008\<rparr> else q)"
  by (simp add: aextract_data_eq fetch_statements_simps)

lemma warnings_aextract:
  "warnings (aextract_data V q c) =
     (case fiscal_year q of
        None \<Rightarrow> []
      | Some y \<Rightarrow> if y < 2008 then [warning_2008] else [])"
  by (simp add: aextract_data_eq fetch_statements_simps)

lemma listing_url_aextract: "hd (requests (aextract_data V q c)) = listing_url q c"
  by (simp add: aextract_data_eq fetch_statements_simps)

lemma requests_nonempty: "requests (aextract_data V q c) \<noteq> []"
  by (simp add: aextract_data_eq fetch_statements_simps)

lemma symbol_after: "symbol (query_after (aextract_data V q c)) = symbol q"
  and period_after: "period (query_after (aextract_data V q c)) = period q"
  and limit_after: "limit (query_after (aextract_data V q c)) = limit q"
  by (simp_all add: query_after_aextract split: option.splits)

lemma period_url_symbol: "symbol q' = symbol q \<Longrightarrow> period_url q' = period_url q"
  by (auto simp: period_url_def fun_eq_iff)


lemma listing_answered:
  assumes "get_data_one V (listing_url q c) = Inr response"
  shows "tl (requests (aextract_data V q c)) =
           map (period_url q (api_key_of c))
             (take (limit q)
                (map fiscal_period_ref (case response of None \<Rightarrow> [] | Some es \<Rightarrow> es)))"
    and "result (aextract_data V q c) =
           amake_requests (request V) (tl (requests (aextract_data V q c))) callback"
proof -
  let ?q' = "query_after (aextract_data V q c)"
  have X: "aextract_data V q c = fetch_statements V ?q' (api_key_of c)
             (warnings (aextract_data V q c)) (listing_url q c)"
    by (simp add: aextract_data_eq fetch_statements_simps)
  have pu: "period_url ?q' = period_url q" by (rule period_url_symbol) (rule symbol_after)
  show "tl (requests (aextract_data V q c)) =
           map (period_url q (api_key_of c))
             (take (limit q)
                (map fiscal_period_ref (case response of None \<Rightarrow> [] | Some es \<Rightarrow> es)))"
    by (subst X) (simp add: fetch_statements_answered(1)[OF assms] pu limit_after)
  show "result (aextract_data V q c) =
           amake_requests (request V) (tl (requests (aextract_data V q c))) callback"
    by (subst (1 2) X) (rule fetch_statements_answered(2)[OF assms])
qed

subsection \<open>C7: the fiscal year floor\<close>

lemma str_int_2008: "str_int 2008 = ''2008''"
  by (simp add: str_int_def str_nat.simps)

lemma aextract_clamped:
  assumes "fiscal_year q = Some y" "y < 2008"
  shows "aextract_data V q c =
           (aextract_data V (q\<lparr>fiscal_year := Some 2008\<rparr>) c)\<lparr>warnings := [warning_2008]\<rparr>"
  using assms
  by (simp add: aextract_data_eq listing_url_def fetch_statements_def Let_def split: sum.splits)

lemma str_int_2021: "str_int 2021 = ''2021''"
  by (simp add: str_int_def str_nat.simps)

text \<open>
  C7. For a query with a fiscal year below 2008, extraction emits the warning, requests
  the listing for fiscal year 2008, and otherwise runs as it does for a query whose
  fiscal year is 2008. For a fiscal year of 2008 or later there is no warning and the
  listing request carries the year as it is. Query construction does not touch the
  year: a constructed query carries the year the caller passed.
\<close>

theorem fiscal_year_clamp:
  assumes "fiscal_year q = Some y"
  shows "(y < 2008 \<longrightarrow>
            warnings (aextract_data V q c) = [warning_2008] \<and>
            hd (requests (aextract_data V q c)) =
              base_url @ ''/companies/'' @ symbol q @ ''/fundamentals?''
                @ ''statement_code='' @ statement_code @ ''&type='' @ period q
                @ ''&fiscal_year=2008'' @ ''&api_key='' @ str_key (api_key_of c) \<and>
            aextract_data V q c =
              (aextract_data V (q\<lparr>fiscal_year := Some 2008\<rparr>) c)\<lparr>warnings := [warning_2008]\<rparr>) \<and>
         (2008 \<le> y \<longrightarrow>
            warnings (aextract_data V q c) = [] \<and>
            hd (requests (aextract_data V q c)) =
              base_url @ ''/companies/'' @ symbol q @ ''/fundamentals?''
                @ ''statement_code='' @ statement_code @ ''&type='' @ period q
                @ ''&fiscal_year='' @ str_int y @ ''&api_key='' @ str_key (api_key_of c)) \<and>
         (transform_query ps = Inr q \<longrightarrow> p_fiscal_year ps = Some y)"
proof (intro conjI impI)
  assume lt: "y < 2008"
  show "warnings (aextract_data V q c) = [warning_2008]"
    using assms lt by (simp add: warnings_aextract)
  show "hd (requests (aextract_data V q c)) =
              base_url @ ''/companies/'' @ symbol q @ ''/fundamentals?''
                @ ''statement_code='' @ statement_code @ ''&type='' @ period q
                @ ''&fiscal_year=2008'' @ ''&api_key='' @ str_key (api_key_of c)"
    using assms lt by (simp add: listing_url_aextract listing_url_def str_int_2008)
  show "aextract_data V q c =
          (aextract_data V (q\<lparr>fiscal_year := Some 2008\<rparr>) c)\<lparr>warnings := [warning_2008]\<rparr>"
    using assms lt by (rule aextract_clamped)
next
  assume ge: "2008 \<le> y"
  show "warnings (aextract_data V q c) = []"
    using assms ge by (simp add: warnings_aextract)
  show "hd (requests (aextract_data V q c)) =
              base_url @ ''/companies/'' @ symbol q @ ''/fundamentals?''
                @ ''statement_code='' @ statement_code @ ''&type='' @ period q
                @ ''&fiscal_year='' @ str_int y @ ''&api_key='' @ str_key (api_key_of c)"
    using assms ge by (simp add: listing_url_aextract listing_url_def)
next
  assume "transform_query ps = Inr q"
  then show "p_fiscal_year ps = Some y"
    using assms by (auto simp: transform_query_def split: if_splits)
qed

theorem fiscal_year_clamp_witness:
  "fiscal_year annual_query = Some 2007 \<and> (2007::int) < 2008 \<and>
   warnings (aextract_data stub_vendor annual_query None) = [warning_2008] \<and>
   hd (requests (aextract_data stub_vendor annual_query None)) =
     ''https://api-v2.intrinio.com/companies/BRK.B/fundamentals?statement_code=balance_sheet_statement&type=FY&fiscal_year=2008&api_key='' \<and>
   fiscal_year quarter_query = Some 2021 \<and> (2008::int) \<le> 2021 \<and>
   warnings (aextract_data stub_vendor quarter_query None) = [] \<and>
   hd (requests (aextract_data stub_vendor quarter_query None)) =
     ''https://api-v2.intrinio.com/companies/AAPL/fundamentals?statement_code=balance_sheet_statement&type=QTR&fiscal_year=2021&api_key='' \<and>
   transform_query annual_params = Inr annual_query \<and>
   p_fiscal_year annual_params = Some 2007"
proof -
  have a: "fiscal_year annual_query = Some 2007" by (simp add: annual_query_def)
  have b: "fiscal_year quarter_query = Some 2021" by (simp add: quarter_query_def)
  have lt: "(2007::int) < 2008" and ge: "(2008::int) \<le> 2021" by simp_all
  note A = fiscal_year_clamp[OF a, of stub_vendor None annual_params]
  note B = fiscal_year_clamp[OF b, of stub_vendor None quarter_params]
  from A lt have 1: "warnings (aextract_data stub_vendor annual_query None) = [warning_2008]"
    by blast
  from A lt have "hd (requests (aextract_data stub_vendor annual_query None)) =
      base_url @ ''/companies/'' @ symbol annual_query @ ''/fundamentals?''
        @ ''statement_code='' @ statement_code @ ''&type='' @ period annual_query
        @ ''&fiscal_year=2008'' @ ''&api_key='' @ str_key (api_key_of None)"
    by blast
  then have 2: "hd (requests (aextract_data stub_vendor annual_query None)) =
     ''https://api-v2.intrinio.com/companies/BRK.B/fundamentals?statement_code=balance_sheet_statement&type=FY&fiscal_year=2008&api_key=''"
    by (simp add: base_url_def statement_code_def annual_query_def api_key_of_def str_key_def)
  from B ge have 3: "warnings (aextract_data stub_vendor quarter_query None) = []"
    by blast
  from B ge have "hd (requests (aextract_data stub_vendor quarter_query None)) =
      base_url @ ''/companies/'' @ symbol quarter_query @ ''/fundamentals?''
        @ ''statement_code='' @ statement_code @ ''&type='' @ period quarter_query
        @ ''&fiscal_year='' @ str_int 2021 @ ''&api_key='' @ str_key (api_key_of None)"
    by blast
  then have 4: "hd (requests (aextract_data stub_vendor quarter_query None)) =
     ''https://api-v2.intrinio.com/companies/AAPL/fundamentals?statement_code=balance_sheet_statement&type=QTR&fiscal_year=2021&api_key=''"
    by (simp add: base_url_def statement_code_def quarter_query_def api_key_of_def str_key_def
        str_int_2021)
  from A annual_params_query have 5: "p_fiscal_year annual_params = Some 2007" by blast
  from a b 1 2 3 4 5 annual_params_query show ?thesis by simp
qed

subsection \<open>C8: what extraction does to the query object\<close>

text \<open>
  C8, as amended. Extraction leaves the symbol, the period and the limit of the query
  object as they were and raises its fiscal year to at least 2008: the object after
  extraction is the object before whenever the fiscal year is absent or not below 2008.
\<close>

theorem query_after_extraction:
  "symbol (query_after (aextract_data V q c)) = symbol q \<and>
   period (query_after (aextract_data V q c)) = period q \<and>
   limit (query_after (aextract_data V q c)) = limit q \<and>
   fiscal_year (query_after (aextract_data V q c)) = map_option (max 2008) (fiscal_year q) \<and>
   ((\<forall>y. fiscal_year q = Some y \<longrightarrow> 2008 \<le> y) \<longrightarrow> query_after (aextract_data V q c) = q)"
  by (auto simp: query_after_aextract split: option.splits)

theorem query_after_extraction_witness:
  "fiscal_year quarter_query = Some 2021 \<and>
   query_after (aextract_data stub_vendor quarter_query None) = quarter_query \<and>
   symbol (query_after (aextract_data stub_vendor annual_query None)) = symbol annual_query \<and>
   fiscal_year (query_after (aextract_data stub_vendor annual_query None)) = Some 2008"
proof -
  have b: "fiscal_year quarter_query = Some 2021" by (simp add: quarter_query_def)
  have a: "fiscal_year annual_query = Some 2007" by (simp add: annual_query_def)
  from query_after_extraction[of stub_vendor quarter_query None] b
  have 1: "query_after (aextract_data stub_vendor quarter_query None) = quarter_query" by simp
  from query_after_extraction[of stub_vendor annual_query None] a
  have 2: "symbol (query_after (aextract_data stub_vendor annual_query None)) = symbol annual_query"
    and 3: "fiscal_year (query_after (aextract_data stub_vendor annual_query None)) = Some 2008"
    by simp_all
  from b 1 2 3 show ?thesis by simp
qed

theorem query_after_extraction_counterexample:
  "fiscal_year annual_query = Some 2007 \<and>
   fiscal_year (query_after (aextract_data offline_vendor annual_query None)) = Some 2008 \<and>
   query_after (aextract_data offline_vendor annual_query None) \<noteq> annual_query"
  by (simp add: query_after_aextract annual_query_def)

subsection \<open>C10: absent credentials\<close>





text \<open>The stub vendor answers every request, and its payloads transform.\<close>

lemma scenario_params_query: "transform_query scenario_params = Inr scenario_query"
  by (simp add: transform_query_def scenario_params_def scenario_query_def handle_symbol_def
      validate_period_def)

lemma stub_listing_answer:
  "get_data_one stub_vendor url = Inr (Some stub_listing)"
  by (simp add: stub_vendor_def stub_get_data_one_def)

lemma stub_request_answer: "request stub_vendor url = Inr (stub_payload url)"
  by (simp add: stub_vendor_def stub_request_def)

lemma stub_line_items:
  "line_items reject_str [] (financials (callback (stub_payload url))) =
     Inr [(''goodwill'', PFloat 0x4014000000000000)]"
  by (simp add: callback_def stub_payload_def coerce_value_def eval_float)

lemma stub_item_ok:
  "transform_item reject_str q (callback (stub_payload url)) =
     Inr (projr (transform_item reject_str q (callback (stub_payload url))))"
proof -
  have "\<not> isl (transform_item reject_str q (callback (stub_payload url)))"
    by (rule transform_item_returns[OF stub_line_items]) (simp add: eval_int)
  then show ?thesis by (rule returns_projr)
qed

lemma stub_requests_ok:
  "amake_requests (request stub_vendor) urls callback =
     Inr (map (\<lambda>u. callback (stub_payload u)) urls)"
  by (induction urls) (simp_all add: stub_request_answer)

lemma stub_transform_ok:
  "transform_data reject_str q (map (\<lambda>u. callback (stub_payload u)) urls) =
     Inr (map (\<lambda>u. projr (transform_item reject_str q (callback (stub_payload u)))) urls)"
proof (induction urls)
  case Nil
  show ?case by simp
next
  case (Cons u urls)
  have "transform_item reject_str q (callback (stub_payload u)) =
     Inr (projr (transform_item reject_str q (callback (stub_payload u))))"
    by (rule stub_item_ok)
  then obtain r where r: "transform_item reject_str q (callback (stub_payload u)) = Inr r"
    by blast
  show ?case by (simp add: Cons.IH r)
qed




subsection \<open>C4: one record per retained period\<close>

lemma requests_answered:
  assumes "get_data_one V (listing_url q c) = Inr response"
  shows "requests (aextract_data V q c) =
           listing_url q c # map (period_url q (api_key_of c))
             (take (limit q)
                (map fiscal_period_ref (case response of None \<Rightarrow> [] | Some es \<Rightarrow> es)))"
proof -
  have "requests (aextract_data V q c)
          = hd (requests (aextract_data V q c)) # tl (requests (aextract_data V q c))"
    using requests_nonempty by simp
  then show ?thesis
    by (simp add: listing_url_aextract listing_answered(1)[OF assms])
qed

lemma fetch_data_Inr:
  assumes "transform_query ps = Inr q" "fetch_data F V ps c = Inr recs"
  shows "\<exists>data. result (aextract_data V q c) = Inr data \<and>
           transform_data F (query_after (aextract_data V q c)) data = Inr recs"
  using assms by (auto simp: fetch_data_def Let_def split: sum.splits)

lemma period_ending_field:
  assumes "transform_item F q item = Inr r"
  shows "get_field r ''period_ending''
           = (if eq_zero (period_ending item) then PNone else period_ending item)"
proof -
  have h: "''period_ending'' \<in> set header_fields" by (simp add: header_fields_def)
  show ?thesis
    unfolding header_field[OF assms h] by (simp add: map_of_attach_header)
qed

lemma amake_requests_all:
  "\<forall>u\<in>set urls. \<not> isl (req u) \<Longrightarrow>
     amake_requests req urls cb = Inr (map (\<lambda>u. cb (projr (req u))) urls)"
proof (induction urls)
  case Nil
  show ?case by simp
next
  case (Cons u urls)
  then obtain p where "req u = Inr p" by (cases "req u") auto
  with Cons show ?case by simp
qed

lemma transform_data_all:
  "\<forall>item\<in>set data. \<not> isl (transform_item F q item) \<Longrightarrow>
     transform_data F q data = Inr (map (\<lambda>item. projr (transform_item F q item)) data)"
proof (induction data)
  case Nil
  show ?case by simp
next
  case (Cons item data)
  then obtain r where "transform_item F q item = Inr r"
    by (cases "transform_item F q item") auto
  with Cons show ?case by simp
qed

lemma fetch_data_returns:
  assumes "transform_query ps = Inr q" and "get_data_one V (listing_url q c) = Inr response"
    and "\<forall>u\<in>set (tl (requests (aextract_data V q c))).
           \<not> isl (request V u) \<and>
           \<not> isl (transform_item F (query_after (aextract_data V q c))
                   (callback (projr (request V u))))"
  shows "\<not> isl (fetch_data F V ps c)"
proof -
  let ?X = "aextract_data V q c"
  let ?urls = "tl (requests ?X)"
  have res: "result ?X = Inr (map (\<lambda>u. callback (projr (request V u))) ?urls)"
    using assms(3) by (simp add: listing_answered(2)[OF assms(2)] amake_requests_all)
  have "transform_data F (query_after ?X) (map (\<lambda>u. callback (projr (request V u))) ?urls)
          = Inr (map (\<lambda>item. projr (transform_item F (query_after ?X) item))
                   (map (\<lambda>u. callback (projr (request V u))) ?urls))"
    by (rule transform_data_all) (use assms(3) in auto)
  then show ?thesis
    by (simp add: fetch_data_def assms(1) Let_def res)
qed

lemma stub_fetch_ok:
  "fetch_data reject_str stub_vendor scenario_params None
     = Inr (projr (fetch_data reject_str stub_vendor scenario_params None))"
proof -
  have "\<exists>recs. fetch_data reject_str stub_vendor scenario_params None = Inr recs"
    by (simp add: fetch_data_def scenario_params_query Let_def
        listing_answered(2)[OF stub_listing_answer] stub_requests_ok stub_transform_ok)
  then show ?thesis by auto
qed

lemma stub_record_period_ending:
  assumes "request stub_vendor u = Inr p"
    and "transform_item F q (callback p) = Inr r"
  shows "get_field r ''period_ending'' = PStr u"
proof -
  from assms(1) have "p = stub_payload u" by (simp add: stub_request_answer)
  then have "period_ending (callback p) = PStr u" by (simp add: callback_def stub_payload_def)
  with period_ending_field[OF assms(2)] show ?thesis by simp
qed

text \<open>
  C4. When the listing request is answered, the requests issued are the listing request
  followed by one per-period request for each of the first \<open>limit\<close> entries of the
  listing, in the listing's order, so their number is the smaller of \<open>limit\<close> and
  the number of entries. A fetch that returns, returns one record per retained entry,
  the record at each position being the transform of the payload answered to the request
  at that position; and the fetch does return when every per-period request is answered
  with a payload that transforms.
\<close>

theorem one_record_per_period:
  assumes "transform_query ps = Inr q" and "get_data_one V (listing_url q c) = Inr response"
  shows "let entries = (case response of None \<Rightarrow> [] | Some es \<Rightarrow> es);
             retained = take (limit q) (map fiscal_period_ref entries);
             urls = map (period_url q (api_key_of c)) retained
         in requests (aextract_data V q c) = listing_url q c # urls \<and>
            length urls = min (limit q) (length entries) \<and>
            (\<forall>recs. fetch_data F V ps c = Inr recs \<longrightarrow>
               length recs = length retained \<and>
               (\<forall>i<length retained. \<exists>p.
                  request V (urls ! i) = Inr p \<and>
                  transform_item F (query_after (aextract_data V q c)) (callback p)
                    = Inr (recs ! i))) \<and>
            ((\<forall>u\<in>set urls.
                \<not> isl (request V u) \<and>
                \<not> isl (transform_item F (query_after (aextract_data V q c))
                        (callback (projr (request V u))))) \<longrightarrow>
             \<not> isl (fetch_data F V ps c))"
proof -
  define entries where "entries = (case response of None \<Rightarrow> [] | Some es \<Rightarrow> es)"
  define retained where "retained = take (limit q) (map fiscal_period_ref entries)"
  define urls where "urls = map (period_url q (api_key_of c)) retained"
  let ?X = "aextract_data V q c"
  have req: "requests ?X = listing_url q c # urls"
    unfolding urls_def retained_def entries_def by (rule requests_answered[OF assms(2)])
  have len: "length urls = min (limit q) (length entries)"
    by (simp add: urls_def retained_def min.commute)
  have res: "result ?X = amake_requests (request V) urls callback"
    using listing_answered(2)[OF assms(2)] req by simp
  have recs: "length recs = length retained \<and>
               (\<forall>i<length retained. \<exists>p.
                  request V (urls ! i) = Inr p \<and>
                  transform_item F (query_after ?X) (callback p) = Inr (recs ! i))"
    if f: "fetch_data F V ps c = Inr recs" for recs
  proof -
    from fetch_data_Inr[OF assms(1) f] obtain data where
      d: "result ?X = Inr data" and t: "transform_data F (query_after ?X) data = Inr recs"
      by blast
    from d res have l1: "list_all2 (\<lambda>u r. \<exists>p. request V u = Inr p \<and> r = callback p) urls data"
      by (simp add: amake_requests_Inr)
    from t have l2: "list_all2 (\<lambda>item r. transform_item F (query_after ?X) item = Inr r) data recs"
      by (simp add: transform_data_Inr)
    have lu: "length urls = length retained" by (simp add: urls_def)
    have ld: "length data = length urls" using l1 by (simp add: list_all2_lengthD)
    have lr: "length recs = length data" using l2 by (simp add: list_all2_lengthD)
    show ?thesis
    proof (intro conjI allI impI)
      show "length recs = length retained" using lu ld lr by simp
    next
      fix i assume i: "i < length retained"
      then have iu: "i < length urls" using lu by simp
      from l1 iu obtain p where p: "request V (urls ! i) = Inr p" "data ! i = callback p"
        by (auto simp: list_all2_conv_all_nth)
      from l2 iu ld have "transform_item F (query_after ?X) (data ! i) = Inr (recs ! i)"
        by (simp add: list_all2_conv_all_nth)
      with p show "\<exists>p. request V (urls ! i) = Inr p \<and>
                  transform_item F (query_after ?X) (callback p) = Inr (recs ! i)"
        by auto
    qed
  qed
  have returns: "\<not> isl (fetch_data F V ps c)"
    if "\<forall>u\<in>set urls.
          \<not> isl (request V u) \<and>
          \<not> isl (transform_item F (query_after ?X) (callback (projr (request V u))))"
    using fetch_data_returns[OF assms] that req by simp
  show ?thesis
    unfolding Let_def entries_def[symmetric] retained_def[symmetric] urls_def[symmetric]
    using req len recs returns by blast
qed

theorem one_record_per_period_witness:
  "transform_query scenario_params = Inr scenario_query \<and>
   get_data_one stub_vendor (listing_url scenario_query None) = Inr (Some stub_listing) \<and>
   length stub_listing = 3 \<and> limit scenario_query = 2 \<and>
   requests (aextract_data stub_vendor scenario_query None) =
     [''https://api-v2.intrinio.com/companies/BRK.B/fundamentals?statement_code=balance_sheet_statement&type=FY&api_key='',
      ''https://api-v2.intrinio.com/fundamentals/BRK.B-balance_sheet_statement-2023-FY/standardized_financials?api_key='',
      ''https://api-v2.intrinio.com/fundamentals/BRK.B-balance_sheet_statement-2022-FY/standardized_financials?api_key=''] \<and>
   fetch_data reject_str stub_vendor scenario_params None
     = Inr (projr (fetch_data reject_str stub_vendor scenario_params None)) \<and>
   length (projr (fetch_data reject_str stub_vendor scenario_params None)) = 2 \<and>
   get_field (projr (fetch_data reject_str stub_vendor scenario_params None) ! 0) ''period_ending''
     = PStr ''https://api-v2.intrinio.com/fundamentals/BRK.B-balance_sheet_statement-2023-FY/standardized_financials?api_key='' \<and>
   get_field (projr (fetch_data reject_str stub_vendor scenario_params None) ! 1) ''period_ending''
     = PStr ''https://api-v2.intrinio.com/fundamentals/BRK.B-balance_sheet_statement-2022-FY/standardized_financials?api_key=''"
proof -
  let ?recs = "projr (fetch_data reject_str stub_vendor scenario_params None)"
  let ?X = "aextract_data stub_vendor scenario_query None"
  define urls where "urls = map (period_url scenario_query (api_key_of None))
      (take (limit scenario_query) (map fiscal_period_ref stub_listing))"
  have urls: "urls =
     [''https://api-v2.intrinio.com/fundamentals/BRK.B-balance_sheet_statement-2023-FY/standardized_financials?api_key='',
      ''https://api-v2.intrinio.com/fundamentals/BRK.B-balance_sheet_statement-2022-FY/standardized_financials?api_key='']"
    by (simp add: urls_def scenario_query_def stub_listing_def fiscal_period_ref_def period_url_def
        base_url_def statement_code_def api_key_of_def str_key_def str_int_def str_nat.simps)
  have lurl: "listing_url scenario_query None =
      ''https://api-v2.intrinio.com/companies/BRK.B/fundamentals?statement_code=balance_sheet_statement&type=FY&api_key=''"
    by (simp add: listing_url_def scenario_query_def base_url_def statement_code_def
        api_key_of_def str_key_def)
  have l3: "length stub_listing = 3" by (simp add: stub_listing_def)
  have l2: "limit scenario_query = 2" by (simp add: scenario_query_def)
  note T = one_record_per_period[OF scenario_params_query stub_listing_answer,
      where F = reject_str and c = None, unfolded Let_def option.case urls_def[symmetric]]
  from T have req: "requests ?X = listing_url scenario_query None # urls" by blast
  from T stub_fetch_ok have len: "length ?recs
      = length (take (limit scenario_query) (map fiscal_period_ref stub_listing))" by blast
  then have len2: "length ?recs = 2" by (simp add: l3 l2)
  from T stub_fetch_ok have each: "\<forall>i<length (take (limit scenario_query)
        (map fiscal_period_ref stub_listing)). \<exists>p.
      request stub_vendor (urls ! i) = Inr p \<and>
      transform_item reject_str (query_after ?X) (callback p) = Inr (?recs ! i)" by blast
  have "\<exists>p. request stub_vendor (urls ! 0) = Inr p \<and>
      transform_item reject_str (query_after ?X) (callback p) = Inr (?recs ! 0)"
    using each by (simp add: l3 l2)
  then have r0: "get_field (?recs ! 0) ''period_ending'' = PStr (urls ! 0)"
    using stub_record_period_ending by blast
  have "\<exists>p. request stub_vendor (urls ! 1) = Inr p \<and>
      transform_item reject_str (query_after ?X) (callback p) = Inr (?recs ! 1)"
    using each by (simp add: l3 l2)
  then have r1: "get_field (?recs ! 1) ''period_ending'' = PStr (urls ! 1)"
    using stub_record_period_ending by blast
  show ?thesis
    using scenario_params_query stub_listing_answer l3 l2 req stub_fetch_ok len2 r0 r1
    by (simp add: urls lurl)
qed

end
